theory Spec2Isabelle
  imports Complex_Main
begin

section \<open>Python string primitives used by the page-range parsers\<close>

text \<open>
  Python strings are modelled as \<open>string\<close>, read as sequences of code points below 256.
  \<open>str.isspace\<close>, \<open>str.lower\<close> and \<open>int\<close> are given on that range; within it the only
  decimal digits are \<open>0\<close> to \<open>9\<close>.
\<close>

definition py_isspace :: "char \<Rightarrow> bool" where
  "py_isspace c \<longleftrightarrow> c \<in> set [CHR 0x09, CHR 0x0A, CHR 0x0B, CHR 0x0C, CHR 0x0D,
                               CHR 0x1C, CHR 0x1D, CHR 0x1E, CHR 0x1F, CHR 0x20,
                               CHR 0x85, CHR 0xA0]"

text \<open>\<open>s.strip()\<close>: leading and trailing whitespace removed.\<close>

definition py_strip :: "string \<Rightarrow> string" where
  "py_strip s = rev (dropWhile py_isspace (rev (dropWhile py_isspace s)))"

definition py_lower_char :: "char \<Rightarrow> char" where
  "py_lower_char c =
     (let n = (of_char c :: nat)
      in if (65 \<le> n \<and> n \<le> 90) \<or> (192 \<le> n \<and> n \<le> 222 \<and> n \<noteq> 215)
         then char_of (n + 32) else c)"

definition py_lower :: "string \<Rightarrow> string" where
  "py_lower s = map py_lower_char s"

text \<open>\<open>s.split(sep)\<close> with an explicit one-character separator: empty pieces are kept.\<close>

fun py_split :: "char \<Rightarrow> string \<Rightarrow> string list" where
  "py_split sep [] = [[]]"
| "py_split sep (c # cs) =
     (if c = sep then [] # py_split sep cs
      else (case py_split sep cs of
              w # ws \<Rightarrow> (c # w) # ws
            | [] \<Rightarrow> [[c]]))"

definition is_digit :: "char \<Rightarrow> bool" where
  "is_digit c \<longleftrightarrow> c \<in> set ''0123456789''"

definition digit_val :: "char \<Rightarrow> nat" where
  "digit_val c = of_char c - 48"

text \<open>
  The digits of a base-10 literal after its first digit: digits, with single underscores
  allowed between two digits. The result is the value read and the number of digits.
\<close>

fun int_body :: "nat \<Rightarrow> nat \<Rightarrow> string \<Rightarrow> (nat \<times> nat) option" where
  "int_body acc k [] = Some (acc, k)"
| "int_body acc k (c # cs) =
     (if is_digit c then int_body (10 * acc + digit_val c) (Suc k) cs
      else if c = CHR ''_'' then
        (case cs of
           [] \<Rightarrow> None
         | d # ds \<Rightarrow> if is_digit d then int_body (10 * acc + digit_val d) (Suc k) ds else None)
      else None)"

text \<open>The interpreter's default limit on the digits of a string converted by \<open>int\<close>.\<close>

definition int_max_str_digits :: nat where
  "int_max_str_digits = 4300"

definition int_unsigned :: "string \<Rightarrow> nat option" where
  "int_unsigned s =
     (case s of
        [] \<Rightarrow> None
      | c # cs \<Rightarrow>
          if is_digit c then
            (case int_body (digit_val c) 1 cs of
               None \<Rightarrow> None
             | Some (v, k) \<Rightarrow> if k > int_max_str_digits then None else Some v)
          else None)"

text \<open>
  \<open>int(s)\<close> on a string: surrounding whitespace is ignored, one sign is allowed, and
  anything else raises ValueError (here \<open>None\<close>).
\<close>

definition py_int :: "string \<Rightarrow> int option" where
  "py_int s =
     (case py_strip s of
        [] \<Rightarrow> None
      | c # cs \<Rightarrow>
          if c = CHR ''-'' then map_option (\<lambda>v. - int v) (int_unsigned cs)
          else if c = CHR ''+'' then map_option int (int_unsigned cs)
          else map_option int (int_unsigned (c # cs)))"

section \<open>The page-range parsers\<close>

text \<open>
  The three modules raise their own exception class (PDFMergerError, PDFSplitterError,
  PDFModifierError) with one of three messages, which the constructors keep:
  \<open>InvalidPageRange part total\<close> is "Invalid page range: part. Pages must be between 1 and total",
  \<open>InvalidPageNumber n total\<close> is "Invalid page number: n. Must be between 1 and total",
  \<open>InvalidPageRangeFormat expr\<close> is "Invalid page range format: expr".
\<close>

datatype range_error =
    InvalidPageRange string int
  | InvalidPageNumber int int
  | InvalidPageRangeFormat string

text \<open>What can leave the body of the \<open>try\<close>: a ValueError, or the module's own exception.\<close>

datatype py_exc = ValueError | Raised range_error

text \<open>The errors of the specification: a bounds error and a format error.\<close>

fun is_bounds_error :: "range_error \<Rightarrow> bool" where
  "is_bounds_error (InvalidPageRange _ _) = True"
| "is_bounds_error (InvalidPageNumber _ _) = True"
| "is_bounds_error (InvalidPageRangeFormat _) = False"

fun is_format_error :: "range_error \<Rightarrow> bool" where
  "is_format_error (InvalidPageRangeFormat _) = True"
| "is_format_error _ = False"

text \<open>\<open>list(range(total_pages))\<close> and \<open>range(start, end + 1)\<close> are \<open>[0..total_pages - 1]\<close> and \<open>[start..end]\<close>.\<close>

subsection \<open>PDFMerger.parse_page_range\<close>

text \<open>One iteration of the loop over the parts: no bounds are checked.\<close>

definition merger_part :: "string \<Rightarrow> int list \<Rightarrow> py_exc + int list" where
  "merger_part p pages =
     (let part = py_strip p in
      if CHR ''-'' \<in> set part then
        (case py_split (CHR ''-'') part of
           [s, e] \<Rightarrow>
             (case py_int (py_strip s) of
                None \<Rightarrow> Inl ValueError
              | Some a \<Rightarrow>
                  (case py_int (py_strip e) of
                     None \<Rightarrow> Inl ValueError
                   | Some b \<Rightarrow> Inr (pages @ [a - 1..b - 1])))
         | _ \<Rightarrow> Inl ValueError)
      else
        (case py_int (py_strip part) of
           None \<Rightarrow> Inl ValueError
         | Some v \<Rightarrow> Inr (pages @ [v - 1])))"

fun merger_parts :: "string list \<Rightarrow> int list \<Rightarrow> py_exc + int list" where
  "merger_parts [] pages = Inr pages"
| "merger_parts (p # ps) pages =
     (case merger_part p pages of
        Inl x \<Rightarrow> Inl x
      | Inr pages' \<Rightarrow> merger_parts ps pages')"

definition merger_parse_page_range :: "string \<Rightarrow> int \<Rightarrow> range_error + int list" where
  "merger_parse_page_range range_str total_pages =
     (if range_str = [] \<or> py_lower (py_strip range_str) = ''all''
      then Inr [0..total_pages - 1]
      else (case merger_parts (py_split (CHR '','') range_str) [] of
              Inr pages \<Rightarrow> Inr (sort (remdups pages))
            | Inl ValueError \<Rightarrow> Inl (InvalidPageRangeFormat range_str)
            | Inl (Raised e) \<Rightarrow> Inl e))"

subsection \<open>PDFSplitter.parse_page_range\<close>

definition splitter_part :: "int \<Rightarrow> string \<Rightarrow> int list \<Rightarrow> py_exc + int list" where
  "splitter_part total_pages p pages =
     (let part = py_strip p in
      if CHR ''-'' \<in> set part then
        (case py_split (CHR ''-'') part of
           [s, e] \<Rightarrow>
             (case py_int (py_strip s) of
                None \<Rightarrow> Inl ValueError
              | Some a \<Rightarrow>
                  (case py_int (py_strip e) of
                     None \<Rightarrow> Inl ValueError
                   | Some b \<Rightarrow>
                       (let start = a - 1; end_page = b - 1 in
                        if start < 0 \<or> end_page \<ge> total_pages \<or> start > end_page
                        then Inl (Raised (InvalidPageRange part total_pages))
                        else Inr (pages @ [start..end_page]))))
         | _ \<Rightarrow> Inl ValueError)
      else
        (case py_int (py_strip part) of
           None \<Rightarrow> Inl ValueError
         | Some v \<Rightarrow>
             (let page = v - 1 in
              if page < 0 \<or> page \<ge> total_pages
              then Inl (Raised (InvalidPageNumber v total_pages))
              else Inr (pages @ [page]))))"

fun splitter_parts :: "int \<Rightarrow> string list \<Rightarrow> int list \<Rightarrow> py_exc + int list" where
  "splitter_parts total_pages [] pages = Inr pages"
| "splitter_parts total_pages (p # ps) pages =
     (case splitter_part total_pages p pages of
        Inl x \<Rightarrow> Inl x
      | Inr pages' \<Rightarrow> splitter_parts total_pages ps pages')"

definition splitter_parse_page_range :: "string \<Rightarrow> int \<Rightarrow> range_error + int list" where
  "splitter_parse_page_range range_str total_pages =
     (if range_str = [] \<or> py_lower (py_strip range_str) = ''all''
      then Inr [0..total_pages - 1]
      else (case splitter_parts total_pages (py_split (CHR '','') range_str) [] of
              Inr pages \<Rightarrow> Inr (sort (remdups pages))
            | Inl ValueError \<Rightarrow> Inl (InvalidPageRangeFormat range_str)
            | Inl (Raised e) \<Rightarrow> Inl e))"

subsection \<open>PDFModifier.parse_page_range\<close>

definition modifier_part :: "int \<Rightarrow> string \<Rightarrow> int list \<Rightarrow> py_exc + int list" where
  "modifier_part total_pages p pages =
     (let part = py_strip p in
      if CHR ''-'' \<in> set part then
        (case py_split (CHR ''-'') part of
           [s, e] \<Rightarrow>
             (case py_int (py_strip s) of
                None \<Rightarrow> Inl ValueError
              | Some a \<Rightarrow>
                  (case py_int (py_strip e) of
                     None \<Rightarrow> Inl ValueError
                   | Some b \<Rightarrow>
                       (let start = a - 1; end_page = b - 1 in
                        if start < 0 \<or> end_page \<ge> total_pages \<or> start > end_page
                        then Inl (Raised (InvalidPageRange part total_pages))
                        else Inr (pages @ [start..end_page]))))
         | _ \<Rightarrow> Inl ValueError)
      else
        (case py_int (py_strip part) of
           None \<Rightarrow> Inl ValueError
         | Some v \<Rightarrow>
             (let page = v - 1 in
              if page < 0 \<or> page \<ge> total_pages
              then Inl (Raised (InvalidPageNumber v total_pages))
              else Inr (pages @ [page]))))"

fun modifier_parts :: "int \<Rightarrow> string list \<Rightarrow> int list \<Rightarrow> py_exc + int list" where
  "modifier_parts total_pages [] pages = Inr pages"
| "modifier_parts total_pages (p # ps) pages =
     (case modifier_part total_pages p pages of
        Inl x \<Rightarrow> Inl x
      | Inr pages' \<Rightarrow> modifier_parts total_pages ps pages')"

definition modifier_parse_page_range :: "string \<Rightarrow> int \<Rightarrow> range_error + int list" where
  "modifier_parse_page_range range_str total_pages =
     (if range_str = [] \<or> py_lower (py_strip range_str) = ''all''
      then Inr [0..total_pages - 1]
      else (case modifier_parts total_pages (py_split (CHR '','') range_str) [] of
              Inr pages \<Rightarrow> Inr (sort (remdups pages))
            | Inl ValueError \<Rightarrow> Inl (InvalidPageRangeFormat range_str)
            | Inl (Raised e) \<Rightarrow> Inl e))"

section \<open>The environment and the progress observer\<close>

text \<open>
  What the operations read from outside: \<open>os.path.exists\<close>, the page count of the document
  a \<open>PdfReader\<close> opens (\<open>None\<close> when the reader raises), \<open>os.path.dirname\<close>, and whether
  \<open>os.makedirs\<close> and the writing of an output file succeed.
\<close>

text \<open>
  An output file: the merge writes \<open>output_file\<close>; the split by count writes
  \<open>join(output_dir, base_name + "_part" + str(file_num + 1) + ".pdf")\<close>, kept as
  \<open>PartFile output_dir input_file (file_num + 1)\<close>; the split by ranges writes
  \<open>join(output_dir, base_name + "_pages" + range_str.replace(",", "_") + ".pdf")\<close>, kept as
  \<open>PagesFile output_dir input_file (range_str.replace(",", "_"))\<close>.
\<close>

datatype out_file =
    MergedFile string
  | PartFile string string int
  | PagesFile string string string

record pdf_env =
  path_exists :: "string \<Rightarrow> bool"
  reader_pages :: "string \<Rightarrow> nat option"
  dirname :: "string \<Rightarrow> string"
  makedirs_ok :: "string \<Rightarrow> bool"
  write_ok :: "out_file \<Rightarrow> bool"

text \<open>
  The messages of the progress events, by their format string; file names stand for their
  \<open>os.path.basename\<close>.
\<close>

datatype progress_message =
    MsgValidating
  | MsgValidated string
  | MsgMerging
  | MsgAdded nat string
  | MsgWriting
  | MsgMerged int int
  | MsgSplitting
  | MsgCreated out_file
  | MsgSplitInto int
  | MsgSplittingByRanges
  | MsgCreatedPages string
  | MsgCreatedFiles nat

record progress_event =
  current :: int
  total :: int
  message :: progress_message

text \<open>A page copied into a writer: the source document and the zero-based page.\<close>

type_synonym page = "string \<times> nat"

text \<open>
  \<open>reader.pages[i]\<close>: a negative index counts from the end, and an index outside the
  document raises IndexError (here \<open>None\<close>).
\<close>

definition py_index :: "nat \<Rightarrow> int \<Rightarrow> nat option" where
  "py_index n i =
     (let j = (if i < 0 then int n + i else i)
      in if 0 \<le> j \<and> j < int n then Some (nat j) else None)"

text \<open>The exception that \<open>except Exception as e\<close> wraps into the module's own.\<close>

datatype cause =
    ReaderFailed
  | MakedirsFailed
  | RangeError range_error
  | IndexError
  | WriteFailed

section \<open>PDFMerger\<close>

text \<open>
  The merger object: whether a progress callback is registered, the calls the callback
  has received (oldest first), and the pages added to \<open>self.writer\<close>.
\<close>

record merger =
  progress_callback :: bool
  notified :: "progress_event list"
  writer :: "page list option"

datatype merge_error =
    NoInputFiles
  | AtLeastTwoRequired
  | FileNotFound string
  | NotAPdf string
  | InvalidOrCorrupted string
  | FailedToMerge cause

definition update_progress :: "int \<Rightarrow> int \<Rightarrow> progress_message \<Rightarrow> merger \<Rightarrow> merger" where
  "update_progress c t msg m =
     (if progress_callback m
      then m\<lparr>notified := notified m @ [\<lparr>current = c, total = t, message = msg\<rparr>]\<rparr>
      else m)"

definition py_endswith :: "string \<Rightarrow> string \<Rightarrow> bool" where
  "py_endswith s suffix \<longleftrightarrow> take (length suffix) (rev s) = rev suffix"

text \<open>
  validate_pdf: the "PDF file is empty" error is raised inside the \<open>try\<close> and leaves it as
  the "Invalid or corrupted" error.
\<close>

definition validate_pdf :: "pdf_env \<Rightarrow> string \<Rightarrow> merge_error + bool" where
  "validate_pdf env file_path =
     (if \<not> path_exists env file_path then Inl (FileNotFound file_path)
      else if \<not> py_endswith (py_lower file_path) ''.pdf'' then Inl (NotAPdf file_path)
      else (case reader_pages env file_path of
              None \<Rightarrow> Inl (InvalidOrCorrupted file_path)
            | Some k \<Rightarrow> if k = 0 then Inl (InvalidOrCorrupted file_path) else Inr True))"

text \<open>The validation loop over \<open>enumerate(input_files)\<close>; \<open>i\<close> is the index of the next file.\<close>

fun validate_files ::
  "pdf_env \<Rightarrow> int \<Rightarrow> int \<Rightarrow> string list \<Rightarrow> merger \<Rightarrow> (merge_error + unit) \<times> merger" where
  "validate_files env n i [] m = (Inr (), m)"
| "validate_files env n i (file_path # rest) m =
     (case validate_pdf env file_path of
        Inl e \<Rightarrow> (Inl e, m)
      | Inr _ \<Rightarrow>
          validate_files env n (i + 1) rest (update_progress (i + 1) n (MsgValidated file_path) m))"

text \<open>
  The pages of one file: its entry of \<open>page_ranges\<close> parsed, or every page. An empty
  dictionary has no entry, so its falsity needs no case of its own.
\<close>

definition pages_to_add ::
  "(string \<rightharpoonup> string) option \<Rightarrow> string \<Rightarrow> nat \<Rightarrow> range_error + int list" where
  "pages_to_add page_ranges file_path num_pages =
     (case page_ranges of
        None \<Rightarrow> Inr [0..int num_pages - 1]
      | Some d \<Rightarrow>
          (case d file_path of
             None \<Rightarrow> Inr [0..int num_pages - 1]
           | Some range_str \<Rightarrow> merger_parse_page_range range_str (int num_pages)))"

definition add_page :: "page \<Rightarrow> merger \<Rightarrow> merger" where
  "add_page pg m = m\<lparr>writer := map_option (\<lambda>w. w @ [pg]) (writer m)\<rparr>"

text \<open>The inner loop: \<open>writer.add_page(reader.pages[page_num]); total_pages += 1\<close>.\<close>

fun add_pages ::
  "string \<Rightarrow> nat \<Rightarrow> int list \<Rightarrow> int \<Rightarrow> merger \<Rightarrow> (cause + int) \<times> merger" where
  "add_pages file_path num_pages [] total_pages m = (Inr total_pages, m)"
| "add_pages file_path num_pages (page_num # rest) total_pages m =
     (case py_index num_pages page_num of
        None \<Rightarrow> (Inl IndexError, m)
      | Some j \<Rightarrow> add_pages file_path num_pages rest (total_pages + 1) (add_page (file_path, j) m))"

fun merge_files ::
  "pdf_env \<Rightarrow> (string \<rightharpoonup> string) option \<Rightarrow> int \<Rightarrow> int \<Rightarrow> string list \<Rightarrow> int \<Rightarrow> merger
   \<Rightarrow> (cause + int) \<times> merger" where
  "merge_files env page_ranges n i [] total_pages m = (Inr total_pages, m)"
| "merge_files env page_ranges n i (file_path # rest) total_pages m =
     (case reader_pages env file_path of
        None \<Rightarrow> (Inl ReaderFailed, m)
      | Some num_pages \<Rightarrow>
          (case pages_to_add page_ranges file_path num_pages of
             Inl e \<Rightarrow> (Inl (RangeError e), m)
           | Inr pages \<Rightarrow>
               (case add_pages file_path num_pages pages total_pages m of
                  (Inl c, m') \<Rightarrow> (Inl c, m')
                | (Inr total_pages', m') \<Rightarrow>
                    merge_files env page_ranges n (i + 1) rest total_pages'
                      (update_progress (i + 1) n (MsgAdded (length pages) file_path) m'))))"

definition merge_pdfs ::
  "pdf_env \<Rightarrow> string list \<Rightarrow> string \<Rightarrow> (string \<rightharpoonup> string) option \<Rightarrow> merger
   \<Rightarrow> (merge_error + bool) \<times> merger" where
  "merge_pdfs env input_files output_file page_ranges m =
     (if input_files = [] then (Inl NoInputFiles, m)
      else if length input_files < 2 then (Inl AtLeastTwoRequired, m)
      else
        (let n = int (length input_files);
             m1 = update_progress 0 n MsgValidating m
         in case validate_files env n 0 input_files m1 of
              (Inl e, m2) \<Rightarrow> (Inl e, m2)
            | (Inr _, m2) \<Rightarrow>
                (let m3 = m2\<lparr>writer := Some []\<rparr>;
                     m4 = update_progress 0 n MsgMerging m3
                 in case merge_files env page_ranges n 0 input_files 0 m4 of
                      (Inl c, m5) \<Rightarrow> (Inl (FailedToMerge c), m5)
                    | (Inr total_pages, m5) \<Rightarrow>
                        (let m6 = update_progress n n MsgWriting m5;
                             output_dir = dirname env output_file
                         in if output_dir \<noteq> [] \<and> \<not> path_exists env output_dir
                               \<and> \<not> makedirs_ok env output_dir
                            then (Inl (FailedToMerge MakedirsFailed), m6)
                            else if \<not> write_ok env (MergedFile output_file)
                            then (Inl (FailedToMerge WriteFailed), m6)
                            else (Inr True, update_progress n n (MsgMerged n total_pages) m6)))))"

section \<open>PDFSplitter\<close>

text \<open>
  The splitter object and what it has written: whether a progress callback is registered,
  the calls it has received, and each output file written with the pages of its writer.
\<close>

record splitter =
  sp_progress_callback :: bool
  sp_notified :: "progress_event list"
  sp_written :: "(out_file \<times> page list) list"

datatype split_error =
    SplitFileNotFound string
  | PagesPerFileTooSmall
  | NoPageRanges
  | FailedToSplit cause

definition sp_update_progress :: "int \<Rightarrow> int \<Rightarrow> progress_message \<Rightarrow> splitter \<Rightarrow> splitter" where
  "sp_update_progress c t msg st =
     (if sp_progress_callback st
      then st\<lparr>sp_notified := sp_notified st @ [\<lparr>current = c, total = t, message = msg\<rparr>]\<rparr>
      else st)"

text \<open>A fresh writer filled by \<open>for page_num in ...: writer.add_page(reader.pages[page_num])\<close>.\<close>

fun fill_writer :: "string \<Rightarrow> nat \<Rightarrow> int list \<Rightarrow> page list \<Rightarrow> cause + page list" where
  "fill_writer input_file total_pages [] w = Inr w"
| "fill_writer input_file total_pages (page_num # rest) w =
     (case py_index total_pages page_num of
        None \<Rightarrow> Inl IndexError
      | Some j \<Rightarrow> fill_writer input_file total_pages rest (w @ [(input_file, j)]))"

definition write_file :: "pdf_env \<Rightarrow> out_file \<Rightarrow> page list \<Rightarrow> splitter \<Rightarrow> cause + splitter" where
  "write_file env f w st =
     (if write_ok env f then Inr (st\<lparr>sp_written := sp_written st @ [(f, w)]\<rparr>)
      else Inl WriteFailed)"

subsection \<open>split_by_page_count\<close>

text \<open>The loop over \<open>range(num_files)\<close>, with the list \<open>output_files\<close> built so far.\<close>

fun count_files ::
  "pdf_env \<Rightarrow> string \<Rightarrow> nat \<Rightarrow> int \<Rightarrow> string \<Rightarrow> int \<Rightarrow> int list \<Rightarrow> out_file list \<Rightarrow> splitter
   \<Rightarrow> (cause + out_file list) \<times> splitter" where
  "count_files env input_file total_pages pages_per_file output_dir num_files [] output_files st =
     (Inr output_files, st)"
| "count_files env input_file total_pages pages_per_file output_dir num_files (file_num # rest)
     output_files st =
     (let start_page = file_num * pages_per_file;
          end_page = min (start_page + pages_per_file) (int total_pages)
      in case fill_writer input_file total_pages [start_page..end_page - 1] [] of
           Inl c \<Rightarrow> (Inl c, st)
         | Inr w \<Rightarrow>
             (let output_file = PartFile output_dir input_file (file_num + 1)
              in case write_file env output_file w st of
                   Inl c \<Rightarrow> (Inl c, st)
                 | Inr st' \<Rightarrow>
                     count_files env input_file total_pages pages_per_file output_dir num_files rest
                       (output_files @ [output_file])
                       (sp_update_progress (file_num + 1) num_files (MsgCreated output_file) st')))"

definition split_by_page_count ::
  "pdf_env \<Rightarrow> string \<Rightarrow> int \<Rightarrow> string \<Rightarrow> splitter \<Rightarrow> (split_error + out_file list) \<times> splitter" where
  "split_by_page_count env input_file pages_per_file output_dir st =
     (if \<not> path_exists env input_file then (Inl (SplitFileNotFound input_file), st)
      else if pages_per_file < 1 then (Inl PagesPerFileTooSmall, st)
      else
        (case reader_pages env input_file of
           None \<Rightarrow> (Inl (FailedToSplit ReaderFailed), st)
         | Some total_pages \<Rightarrow>
             if \<not> path_exists env output_dir \<and> \<not> makedirs_ok env output_dir
             then (Inl (FailedToSplit MakedirsFailed), st)
             else
               (let num_files = (int total_pages + pages_per_file - 1) div pages_per_file;
                    st1 = sp_update_progress 0 num_files MsgSplitting st
                in case count_files env input_file total_pages pages_per_file output_dir num_files
                          [0..num_files - 1] [] st1 of
                     (Inl c, st2) \<Rightarrow> (Inl (FailedToSplit c), st2)
                   | (Inr output_files, st2) \<Rightarrow>
                       (Inr output_files,
                        sp_update_progress num_files num_files (MsgSplitInto num_files) st2))))"

subsection \<open>split_by_ranges\<close>

definition py_replace :: "char \<Rightarrow> char \<Rightarrow> string \<Rightarrow> string" where
  "py_replace old new s = map (\<lambda>c. if c = old then new else c) s"

text \<open>
  The loop over \<open>enumerate(ranges)\<close>; \<open>i\<close> is the index of the next range. An empty page
  list takes the \<open>continue\<close>: no file, no progress event.
\<close>

fun range_files ::
  "pdf_env \<Rightarrow> string \<Rightarrow> nat \<Rightarrow> string \<Rightarrow> int \<Rightarrow> int \<Rightarrow> string list \<Rightarrow> out_file list \<Rightarrow> splitter
   \<Rightarrow> (cause + out_file list) \<times> splitter" where
  "range_files env input_file total_pages output_dir n i [] output_files st =
     (Inr output_files, st)"
| "range_files env input_file total_pages output_dir n i (range_str # rest) output_files st =
     (case splitter_parse_page_range range_str (int total_pages) of
        Inl e \<Rightarrow> (Inl (RangeError e), st)
      | Inr pages \<Rightarrow>
          if pages = []
          then range_files env input_file total_pages output_dir n (i + 1) rest output_files st
          else
            (case fill_writer input_file total_pages pages [] of
               Inl c \<Rightarrow> (Inl c, st)
             | Inr w \<Rightarrow>
                 (let output_file =
                        PagesFile output_dir input_file (py_replace (CHR '','') (CHR ''_'') range_str)
                  in case write_file env output_file w st of
                       Inl c \<Rightarrow> (Inl c, st)
                     | Inr st' \<Rightarrow>
                         range_files env input_file total_pages output_dir n (i + 1) rest
                           (output_files @ [output_file])
                           (sp_update_progress (i + 1) n (MsgCreatedPages range_str) st'))))"

definition split_by_ranges ::
  "pdf_env \<Rightarrow> string \<Rightarrow> string list \<Rightarrow> string \<Rightarrow> splitter
   \<Rightarrow> (split_error + out_file list) \<times> splitter" where
  "split_by_ranges env input_file ranges output_dir st =
     (if \<not> path_exists env input_file then (Inl (SplitFileNotFound input_file), st)
      else if ranges = [] then (Inl NoPageRanges, st)
      else
        (case reader_pages env input_file of
           None \<Rightarrow> (Inl (FailedToSplit ReaderFailed), st)
         | Some total_pages \<Rightarrow>
             if \<not> path_exists env output_dir \<and> \<not> makedirs_ok env output_dir
             then (Inl (FailedToSplit MakedirsFailed), st)
             else
               (let n = int (length ranges);
                    st1 = sp_update_progress 0 n MsgSplittingByRanges st
                in case range_files env input_file total_pages output_dir n 0 ranges [] st1 of
                     (Inl c, st2) \<Rightarrow> (Inl (FailedToSplit c), st2)
                   | (Inr output_files, st2) \<Rightarrow>
                       (Inr output_files,
                        sp_update_progress n n (MsgCreatedFiles (length output_files)) st2))))"

section \<open>Notions of the specification\<close>

text \<open>
  The terms of an expression that is a term list: the comma-separated pieces, trimmed.
\<close>

definition range_terms :: "string \<Rightarrow> string list" where
  "range_terms range_str = map py_strip (py_split (CHR '','') range_str)"

text \<open>
  The two recognised shapes of a term: a single number \<open>n\<close>, read as the pair \<open>(n, n)\<close>,
  or exactly one dash-separated pair of numbers. Any other term has no value.
\<close>

definition term_value :: "string \<Rightarrow> (int \<times> int) option" where
  "term_value t =
     (case py_split (CHR ''-'') t of
        [n] \<Rightarrow> map_option (\<lambda>v. (v, v)) (py_int (py_strip n))
      | [a, b] \<Rightarrow>
          (case py_int (py_strip a) of
             None \<Rightarrow> None
           | Some x \<Rightarrow> map_option (Pair x) (py_int (py_strip b)))
      | _ \<Rightarrow> None)"

definition well_formed_term :: "string \<Rightarrow> bool" where
  "well_formed_term t \<longleftrightarrow> term_value t \<noteq> None"

text \<open>
  A well-formed term is out of bounds when one of its 1-based page numbers is below 1 or
  above the page count, or when its start exceeds its end.
\<close>

definition term_out_of_bounds :: "int \<Rightarrow> string \<Rightarrow> bool" where
  "term_out_of_bounds total_pages t =
     (case term_value t of
        None \<Rightarrow> False
      | Some (a, b) \<Rightarrow> a < 1 \<or> a > total_pages \<or> b < 1 \<or> b > total_pages \<or> a > b)"

definition term_ok :: "int \<Rightarrow> string \<Rightarrow> bool" where
  "term_ok total_pages t \<longleftrightarrow> well_formed_term t \<and> \<not> term_out_of_bounds total_pages t"

text \<open>The bounds error the splitter and the modifier raise for the term \<open>t\<close> that starts at \<open>a\<close>.\<close>

definition bounds_error :: "int \<Rightarrow> string \<Rightarrow> int \<Rightarrow> range_error" where
  "bounds_error total_pages t a =
     (if CHR ''-'' \<in> set t then InvalidPageRange t total_pages
      else InvalidPageNumber a total_pages)"

text \<open>The pairs (current, total) of a sequence of progress events.\<close>

definition counters :: "progress_event list \<Rightarrow> (int \<times> int) list" where
  "counters evs = map (\<lambda>e. (current e, total e)) evs"

text \<open>The pages of file number \<open>f\<close> in a split by count, and the pages an expression selects.\<close>

definition chunk_plan :: "string \<Rightarrow> nat \<Rightarrow> int \<Rightarrow> int \<Rightarrow> page list" where
  "chunk_plan input_file total_pages pages_per_file f =
     map (\<lambda>i. (input_file, nat i))
       [f * pages_per_file..min ((f + 1) * pages_per_file) (int total_pages) - 1]"

definition resolved :: "string \<Rightarrow> nat \<Rightarrow> int list" where
  "resolved range_str total_pages =
     (case splitter_parse_page_range range_str (int total_pages) of
        Inl e \<Rightarrow> []
      | Inr pages \<Rightarrow> pages)"

text \<open>
  The pages a merge source contributes: every page when it has no expression, else the
  pages its expression selects.
\<close>

definition source_pages :: "pdf_env \<Rightarrow> (string \<rightharpoonup> string) option \<Rightarrow> string \<Rightarrow> int list" where
  "source_pages env page_ranges file_path =
     (let n = (case reader_pages env file_path of None \<Rightarrow> 0 | Some k \<Rightarrow> k)
      in case page_ranges of
           None \<Rightarrow> [0..int n - 1]
         | Some d \<Rightarrow> (case d file_path of None \<Rightarrow> [0..int n - 1] | Some r \<Rightarrow> resolved r n))"

section \<open>Example inputs\<close>

definition example_env :: pdf_env where
  "example_env =
     \<lparr>path_exists = (\<lambda>p. p \<in> set [''a.pdf'', ''b.pdf'', ''doc.pdf'', ''seven.pdf'', ''blank.pdf'', ''out'']),
      reader_pages =
        (\<lambda>p. if p = ''a.pdf'' then Some 3 else if p = ''b.pdf'' then Some 2
              else if p = ''doc.pdf'' then Some 10 else if p = ''seven.pdf'' then Some 7
              else if p = ''blank.pdf'' then Some 0 else None),
      dirname = (\<lambda>p. []),
      makedirs_ok = (\<lambda>d. True),
      write_ok = (\<lambda>f. True)\<rparr>"

definition new_merger :: merger where
  "new_merger = \<lparr>progress_callback = True, notified = [], writer = None\<rparr>"

definition new_splitter :: splitter where
  "new_splitter = \<lparr>sp_progress_callback = True, sp_notified = [], sp_written = []\<rparr>"

section \<open>Notions of the specification: merging and splitting\<close>

text \<open>
  A valid expression: empty, "all", or a term list whose terms are all well formed and in
  bounds. A valid merge source exists, is named \<open>.pdf\<close>, has at least one page, and its
  expression, if it has one, is valid for its page count. The output plan of a merge is
  the concatenation, in source order, of each source's pages.
\<close>

definition valid_expression :: "string \<Rightarrow> int \<Rightarrow> bool" where
  "valid_expression range_str total_pages \<longleftrightarrow>
     range_str = [] \<or> py_lower (py_strip range_str) = ''all''
     \<or> list_all (term_ok total_pages) (range_terms range_str)"

definition valid_source :: "pdf_env \<Rightarrow> (string \<rightharpoonup> string) option \<Rightarrow> string \<Rightarrow> bool" where
  "valid_source env page_ranges file_path \<longleftrightarrow>
     path_exists env file_path \<and> py_endswith (py_lower file_path) ''.pdf''
     \<and> (case reader_pages env file_path of
           None \<Rightarrow> False
         | Some k \<Rightarrow>
             0 < k \<and>
             (case page_ranges of
                None \<Rightarrow> True
              | Some d \<Rightarrow>
                  (case d file_path of
                     None \<Rightarrow> True
                   | Some r \<Rightarrow> valid_expression r (int k))))"

definition output_writable :: "pdf_env \<Rightarrow> string \<Rightarrow> bool" where
  "output_writable env output_file \<longleftrightarrow>
     (dirname env output_file = [] \<or> path_exists env (dirname env output_file)
      \<or> makedirs_ok env (dirname env output_file))
     \<and> write_ok env (MergedFile output_file)"

definition merge_plan :: "pdf_env \<Rightarrow> (string \<rightharpoonup> string) option \<Rightarrow> string list \<Rightarrow> page list" where
  "merge_plan env page_ranges input_files =
     concat (map (\<lambda>f. map (\<lambda>i. (f, nat i)) (source_pages env page_ranges f)) input_files)"

fun insufficient_sources :: "merge_error \<Rightarrow> bool" where
  "insufficient_sources NoInputFiles = True"
| "insufficient_sources AtLeastTwoRequired = True"
| "insufficient_sources _ = False"

text \<open>
  The output files of the two splits, the plan of one range expression, and the
  environment in which a split can run: the input exists and opens with \<open>total_pages\<close>
  pages, and the output directory exists or can be made.
\<close>

definition part_file :: "string \<Rightarrow> string \<Rightarrow> int \<Rightarrow> out_file" where
  "part_file output_dir input_file f = PartFile output_dir input_file (f + 1)"

definition pages_file :: "string \<Rightarrow> string \<Rightarrow> string \<Rightarrow> out_file" where
  "pages_file output_dir input_file range_str =
     PagesFile output_dir input_file (py_replace (CHR '','') (CHR ''_'') range_str)"

definition range_plan :: "string \<Rightarrow> nat \<Rightarrow> string \<Rightarrow> page list" where
  "range_plan input_file total_pages range_str =
     map (\<lambda>i. (input_file, nat i)) (resolved range_str total_pages)"

definition split_ready :: "pdf_env \<Rightarrow> string \<Rightarrow> nat \<Rightarrow> string \<Rightarrow> bool" where
  "split_ready env input_file total_pages output_dir \<longleftrightarrow>
     path_exists env input_file \<and> reader_pages env input_file = Some total_pages
     \<and> (path_exists env output_dir \<or> makedirs_ok env output_dir)"

section \<open>Splitting at a separator\<close>

lemma py_split_nonempty: "py_split sep s \<noteq> []"
  by (induction s) (auto split: list.splits)

lemma py_split_no_sep: "sep \<notin> set s \<Longrightarrow> py_split sep s = [s]"
  by (induction s) auto

lemma py_split_sep: "sep \<in> set s \<Longrightarrow> \<exists>a b rest. py_split sep s = a # b # rest"
proof (induction s)
  case Nil
  then show ?case by simp
next
  case (Cons c cs)
  show ?case
  proof (cases "c = sep")
    case True
    obtain w ws where "py_split sep cs = w # ws"
      using py_split_nonempty [of sep cs] by (cases "py_split sep cs") auto
    with True show ?thesis by simp
  next
    case False
    with Cons.prems have "sep \<in> set cs" by auto
    from Cons.IH [OF this] obtain a b rest where "py_split sep cs = a # b # rest" by blast
    with False show ?thesis by simp
  qed
qed

section \<open>One term of the loop\<close>

lemma merger_part_term_value:
  "merger_part p pages =
     (case term_value (py_strip p) of
        None \<Rightarrow> Inl ValueError
      | Some (a, b) \<Rightarrow> Inr (pages @ [a - 1..b - 1]))"
proof (cases "CHR ''-'' \<in> set (py_strip p)")
  case True
  from py_split_sep [OF this] obtain a b rest
    where "py_split (CHR ''-'') (py_strip p) = a # b # rest" by blast
  with True show ?thesis
    by (cases rest) (simp_all add: merger_part_def term_value_def split: option.splits)
next
  case False
  then show ?thesis
    by (simp add: merger_part_def term_value_def py_split_no_sep split: option.splits)
qed

lemma splitter_part_term_value:
  "splitter_part total_pages p pages =
     (case term_value (py_strip p) of
        None \<Rightarrow> Inl ValueError
      | Some (a, b) \<Rightarrow>
          if a < 1 \<or> b > total_pages \<or> a > b
          then Inl (Raised (bounds_error total_pages (py_strip p) a))
          else Inr (pages @ [a - 1..b - 1]))"
proof (cases "CHR ''-'' \<in> set (py_strip p)")
  case True
  from py_split_sep [OF this] obtain a b rest
    where "py_split (CHR ''-'') (py_strip p) = a # b # rest" by blast
  with True show ?thesis
    by (cases rest)
      (auto simp add: splitter_part_def term_value_def bounds_error_def Let_def split: option.splits)
next
  case False
  then show ?thesis
    by (auto simp add: splitter_part_def term_value_def py_split_no_sep bounds_error_def Let_def
        split: option.splits)
qed

text \<open>The modifier's parser is the splitter's, line by line.\<close>

lemma modifier_part_eq: "modifier_part = splitter_part"
  by (intro ext) (simp add: modifier_part_def splitter_part_def)

lemma modifier_parts_eq: "modifier_parts n ps pages = splitter_parts n ps pages"
  by (induction ps arbitrary: pages) (simp_all add: modifier_part_eq split: sum.splits)

lemma modifier_parse_eq: "modifier_parse_page_range = splitter_parse_page_range"
  by (intro ext)
    (simp add: modifier_parse_page_range_def splitter_parse_page_range_def modifier_parts_eq)

lemma term_ok_iff:
  "term_ok n t \<longleftrightarrow> (\<exists>a b. term_value t = Some (a, b) \<and> 1 \<le> a \<and> b \<le> n \<and> a \<le> b)"
  by (auto simp: term_ok_def well_formed_term_def term_out_of_bounds_def split: option.splits)

lemma out_of_bounds_iff:
  "term_out_of_bounds n t \<longleftrightarrow> (\<exists>a b. term_value t = Some (a, b) \<and> (a < 1 \<or> b > n \<or> a > b))"
  by (auto simp: term_out_of_bounds_def split: option.splits)

lemma is_bounds_error_bounds_error: "is_bounds_error (bounds_error n t a)"
  by (simp add: bounds_error_def)

section \<open>The loop over the terms\<close>

lemma merger_parts_malformed:
  "\<exists>p \<in> set ps. term_value (py_strip p) = None \<Longrightarrow> merger_parts ps pages = Inl ValueError"
proof (induction ps arbitrary: pages)
  case Nil
  then show ?case by simp
next
  case (Cons p ps)
  show ?case
  proof (cases "term_value (py_strip p)")
    case None
    then show ?thesis by (simp add: merger_part_term_value)
  next
    case (Some ab)
    with Cons.prems have "\<exists>q \<in> set ps. term_value (py_strip q) = None" by auto
    from Cons.IH [OF this] Some show ?thesis
      by (simp add: merger_part_term_value split: prod.splits)
  qed
qed

text \<open>In the strict parsers the first term that is not in order decides the outcome.\<close>

lemma splitter_parts_first_malformed:
  "map py_strip ps = pre @ t # post \<Longrightarrow> \<forall>u \<in> set pre. term_ok n u \<Longrightarrow> term_value t = None
   \<Longrightarrow> splitter_parts n ps pages = Inl ValueError"
proof (induction pre arbitrary: ps pages)
  case Nil
  then obtain p ps' where "ps = p # ps'" "py_strip p = t" by auto
  with Nil.prems(3) show ?case by (simp add: splitter_part_term_value)
next
  case (Cons u pre)
  then obtain p ps' where ps: "ps = p # ps'" "py_strip p = u" "map py_strip ps' = pre @ t # post"
    by auto
  from Cons.prems(2) obtain a b where ab: "term_value u = Some (a, b)" "1 \<le> a" "b \<le> n" "a \<le> b"
    by (auto simp: term_ok_iff)
  from Cons.prems(2) have "\<forall>v \<in> set pre. term_ok n v" by simp
  from Cons.IH [OF ps(3) this Cons.prems(3)] ps ab show ?case
    by (simp add: splitter_part_term_value)
qed

lemma splitter_parts_first_out_of_bounds:
  "map py_strip ps = pre @ t # post \<Longrightarrow> \<forall>u \<in> set pre. term_ok n u \<Longrightarrow> term_out_of_bounds n t
   \<Longrightarrow> \<exists>a. splitter_parts n ps pages = Inl (Raised (bounds_error n t a))"
proof (induction pre arbitrary: ps pages)
  case Nil
  then obtain p ps' where "ps = p # ps'" "py_strip p = t" by auto
  with Nil.prems(3) show ?case
    by (auto simp: splitter_part_term_value out_of_bounds_iff)
next
  case (Cons u pre)
  then obtain p ps' where ps: "ps = p # ps'" "py_strip p = u" "map py_strip ps' = pre @ t # post"
    by auto
  from Cons.prems(2) obtain a b where ab: "term_value u = Some (a, b)" "1 \<le> a" "b \<le> n" "a \<le> b"
    by (auto simp: term_ok_iff)
  from Cons.prems(2) have "\<forall>v \<in> set pre. term_ok n v" by simp
  from Cons.IH [OF ps(3) this Cons.prems(3)] ps ab show ?case
    by (simp add: splitter_part_term_value)
qed

lemma splitter_parts_success:
  "splitter_parts n ps pages = Inr r \<Longrightarrow> \<forall>p \<in> set ps. term_ok n (py_strip p)"
proof (induction ps arbitrary: pages)
  case Nil
  then show ?case by simp
next
  case (Cons p ps)
  then show ?case
    by (auto simp: splitter_part_term_value term_ok_iff split: option.splits if_splits sum.splits)
qed

lemma splitter_parts_merger_parts:
  "splitter_parts n ps pages = Inr r \<Longrightarrow> merger_parts ps pages = Inr r"
proof (induction ps arbitrary: pages)
  case Nil
  then show ?case by simp
next
  case (Cons p ps)
  then show ?case
    by (auto simp: splitter_part_term_value merger_part_term_value
        split: option.splits if_splits sum.splits)
qed

lemma splitter_parts_in_range:
  "splitter_parts n ps pages = Inr r \<Longrightarrow> \<forall>i \<in> set pages. 0 \<le> i \<and> i < n \<Longrightarrow>
   \<forall>i \<in> set r. 0 \<le> i \<and> i < n"
proof (induction ps arbitrary: pages)
  case Nil
  then show ?case by simp
next
  case (Cons p ps)
  from Cons.prems(1) obtain pages' where
    step: "splitter_part n p pages = Inr pages'" and rest: "splitter_parts n ps pages' = Inr r"
    by (auto split: sum.splits)
  from step Cons.prems(2) have "\<forall>i \<in> set pages'. 0 \<le> i \<and> i < n"
    by (auto simp: splitter_part_term_value split: option.splits if_splits)
  from Cons.IH [OF rest this] show ?case .
qed

section \<open>The parsers\<close>

lemma splitter_parse_merger_parse:
  "splitter_parse_page_range e n = Inr ps \<Longrightarrow> merger_parse_page_range e n = Inr ps"
  by (auto simp: splitter_parse_page_range_def merger_parse_page_range_def
      dest: splitter_parts_merger_parts split: if_splits sum.splits py_exc.splits)

lemma splitter_parse_in_range:
  assumes "splitter_parse_page_range e n = Inr ps"
  shows "\<forall>i \<in> set ps. 0 \<le> i \<and> i < n"
proof (cases "e = [] \<or> py_lower (py_strip e) = ''all''")
  case True
  with assms show ?thesis by (auto simp: splitter_parse_page_range_def)
next
  case False
  with assms obtain pages where
    p: "splitter_parts n (py_split (CHR '','') e) [] = Inr pages" and ps: "ps = sort (remdups pages)"
    by (auto simp: splitter_parse_page_range_def split: sum.splits py_exc.splits)
  from splitter_parts_in_range [OF p] ps show ?thesis by simp
qed

lemma parse_page_range_ascending:
  assumes "merger_parse_page_range e n = Inr ps \<or> splitter_parse_page_range e n = Inr ps
           \<or> modifier_parse_page_range e n = Inr ps"
  shows "sorted_wrt (<) ps \<and> distinct ps"
proof -
  have "(\<exists>pages. ps = sort (remdups pages)) \<or> ps = [0..n - 1]"
    using assms
    by (auto simp: merger_parse_page_range_def splitter_parse_page_range_def
        modifier_parse_page_range_def split: if_splits sum.splits py_exc.splits)
  then show ?thesis
    by (auto simp: strict_sorted_iff)
qed

text \<open>
  The strict parsers on a term list whose first term not in order is out of bounds, and on
  any term list with a term not in order.
\<close>

lemma splitter_parse_out_of_bounds:
  assumes "e \<noteq> []" and "py_lower (py_strip e) \<noteq> ''all''"
    and "range_terms e = pre @ t # post"
    and "\<forall>u \<in> set pre. term_ok n u"
    and "term_out_of_bounds n t"
  shows "\<exists>err. splitter_parse_page_range e n = Inl err \<and> is_bounds_error err"
proof -
  from assms(3) have "map py_strip (py_split (CHR '','') e) = pre @ t # post"
    by (simp add: range_terms_def)
  from splitter_parts_first_out_of_bounds [OF this assms(4,5), of "[]"] assms(1,2) show ?thesis
    by (auto simp: splitter_parse_page_range_def is_bounds_error_bounds_error)
qed

lemma splitter_parse_format:
  assumes "e \<noteq> []" and "py_lower (py_strip e) \<noteq> ''all''"
    and "range_terms e = pre @ t # post"
    and "\<forall>u \<in> set pre. term_ok n u"
    and "\<not> well_formed_term t"
  shows "splitter_parse_page_range e n = Inl (InvalidPageRangeFormat e)"
proof -
  from assms(3) have m: "map py_strip (py_split (CHR '','') e) = pre @ t # post"
    by (simp add: range_terms_def)
  from assms(5) have "term_value t = None" unfolding well_formed_term_def by blast
  from splitter_parts_first_malformed [OF m assms(4) this, of "[]"] assms(1,2) show ?thesis
    by (simp add: splitter_parse_page_range_def)
qed

lemma splitter_parse_rejects:
  assumes "e \<noteq> []" and "py_lower (py_strip e) \<noteq> ''all''"
    and "\<exists>t \<in> set (range_terms e). \<not> term_ok n t"
  shows "\<exists>err. splitter_parse_page_range e n = Inl err"
proof (cases "splitter_parse_page_range e n")
  case (Inl err)
  then show ?thesis by simp
next
  case (Inr ps)
  with assms(1,2) obtain pages where "splitter_parts n (py_split (CHR '','') e) [] = Inr pages"
    by (auto simp: splitter_parse_page_range_def split: sum.splits py_exc.splits)
  from splitter_parts_success [OF this] assms(3) show ?thesis
    by (auto simp: range_terms_def)
qed

lemma merger_parse_format:
  assumes "e \<noteq> []" and "py_lower (py_strip e) \<noteq> ''all''"
    and "\<exists>t \<in> set (range_terms e). \<not> well_formed_term t"
  shows "merger_parse_page_range e n = Inl (InvalidPageRangeFormat e)"
proof -
  from assms(3) obtain t where t: "t \<in> set (range_terms e)" "term_value t = None"
    unfolding well_formed_term_def by blast
  from t(1) obtain p where "p \<in> set (py_split (CHR '','') e)" "t = py_strip p"
    unfolding range_terms_def by auto
  with t(2) have "\<exists>p \<in> set (py_split (CHR '','') e). term_value (py_strip p) = None"
    by blast
  from merger_parts_malformed [OF this, of "[]"] assms(1,2) show ?thesis
    by (simp add: merger_parse_page_range_def)
qed

section \<open>Claims about the parsers\<close>

text \<open>
  C1. The specification asks every parser to reject a page number below 1 or above the page
  count, and a pair whose start exceeds its end, with a bounds error. The splitter and the
  modifier do so (\<open>splitter_parse_out_of_bounds\<close>, \<open>splitter_parse_rejects\<close>,
  \<open>modifier_parse_eq\<close>); the merger's parser has no bounds check: on a 5-page document it
  returns the index 6 for "7", the index -1 for "0", and no page for "4-2", where the
  splitter and the modifier raise their bounds errors. A merge that gives the two-page
  source B the expression "0" succeeds, with the last page of B in the output.
\<close>

theorem merger_parse_unchecked_bounds:
  "merger_parse_page_range ''7'' 5 = Inr [6]
   \<and> merger_parse_page_range ''0'' 5 = Inr [- 1]
   \<and> merger_parse_page_range ''4-2'' 5 = Inr []
   \<and> splitter_parse_page_range ''7'' 5 = Inl (InvalidPageNumber 7 5)
   \<and> modifier_parse_page_range ''7'' 5 = Inl (InvalidPageNumber 7 5)
   \<and> splitter_parse_page_range ''4-2'' 5 = Inl (InvalidPageRange ''4-2'' 5)
   \<and> modifier_parse_page_range ''4-2'' 5 = Inl (InvalidPageRange ''4-2'' 5)
   \<and> fst (merge_pdfs example_env [''a.pdf'', ''b.pdf''] ''m.pdf'' (Some [''b.pdf'' \<mapsto> ''0''])
          new_merger) = Inr True
   \<and> writer (snd (merge_pdfs example_env [''a.pdf'', ''b.pdf''] ''m.pdf''
          (Some [''b.pdf'' \<mapsto> ''0'']) new_merger))
       = Some [(''a.pdf'', 0), (''a.pdf'', 1), (''a.pdf'', 2), (''b.pdf'', 1)]"
  by code_simp

text \<open>
  C3, as stated, fails: an expression of one space is empty after trimming, and the three
  parsers reject it with the format error, since emptiness is tested before trimming.
\<close>

theorem blank_expression_counterexample:
  "py_strip '' '' = []
   \<and> merger_parse_page_range '' '' 3 = Inl (InvalidPageRangeFormat '' '')
   \<and> splitter_parse_page_range '' '' 3 = Inl (InvalidPageRangeFormat '' '')
   \<and> modifier_parse_page_range '' '' 3 = Inl (InvalidPageRangeFormat '' '')"
  by code_simp

text \<open>
  C3, amended: for every page count \<open>n\<close>, an expression that is the empty string, or that
  after trimming is case-insensitively equal to "all", parses in the three parsers to
  exactly the indices \<open>0, 1, ..., n - 1\<close>, with no error.
\<close>

theorem parse_all_pages:
  assumes "range_str = [] \<or> py_lower (py_strip range_str) = ''all''"
  shows "merger_parse_page_range range_str n = Inr [0..n - 1]
         \<and> splitter_parse_page_range range_str n = Inr [0..n - 1]
         \<and> modifier_parse_page_range range_str n = Inr [0..n - 1]"
  using assms
  by (simp add: merger_parse_page_range_def splitter_parse_page_range_def
      modifier_parse_page_range_def)

theorem parse_all_pages_witness:
  "py_lower (py_strip '' All '') = ''all''
   \<and> merger_parse_page_range '' All '' 3 = Inr [0, 1, 2]
   \<and> splitter_parse_page_range '' All '' 3 = Inr [0, 1, 2]
   \<and> modifier_parse_page_range '' All '' 3 = Inr [0, 1, 2]
   \<and> splitter_parse_page_range [] 0 = Inr []"
proof -
  have h: "py_lower (py_strip '' All '') = ''all''" by code_simp
  have u: "[0..3 - 1] = [0, 1, 2::int]" "[0..0 - 1] = ([]::int list)" by code_simp+
  from parse_all_pages [of "'' All ''" 3] parse_all_pages [of "[]" 0] h u show ?thesis
    by simp
qed

text \<open>
  C7. Every list of pages a parser returns is strictly ascending and free of duplicates,
  for every expression and page count; "1-2,4,2-3" on 5 pages gives 0, 1, 2, 3.
\<close>

theorem parsed_pages_strictly_ascending:
  assumes "merger_parse_page_range range_str n = Inr ps
           \<or> splitter_parse_page_range range_str n = Inr ps
           \<or> modifier_parse_page_range range_str n = Inr ps"
  shows "sorted_wrt (<) ps \<and> distinct ps"
  using assms by (rule parse_page_range_ascending)

theorem parsed_pages_strictly_ascending_witness:
  "merger_parse_page_range ''1-2,4,2-3'' 5 = Inr [0, 1, 2, 3]
   \<and> splitter_parse_page_range ''1-2,4,2-3'' 5 = Inr [0, 1, 2, 3]
   \<and> modifier_parse_page_range ''1-2,4,2-3'' 5 = Inr [0, 1, 2, 3]
   \<and> sorted_wrt (<) [0, 1, 2, 3::int] \<and> distinct [0, 1, 2, 3::int]"
proof -
  have e: "merger_parse_page_range ''1-2,4,2-3'' 5 = Inr [0, 1, 2, 3]"
    "splitter_parse_page_range ''1-2,4,2-3'' 5 = Inr [0, 1, 2, 3]"
    "modifier_parse_page_range ''1-2,4,2-3'' 5 = Inr [0, 1, 2, 3]"
    by code_simp+
  from parsed_pages_strictly_ascending [of "''1-2,4,2-3''" 5 "[0, 1, 2, 3]"] e show ?thesis
    by blast
qed

text \<open>
  C8, as stated, fails: "99,x" on 5 pages has the term "x", which is no integer, and the
  splitter and the modifier fail with the bounds error of the earlier term "99".
\<close>

theorem malformed_after_out_of_range_counterexample:
  "range_terms ''99,x'' = [''99'', ''x'']
   \<and> \<not> well_formed_term ''x''
   \<and> splitter_parse_page_range ''99,x'' 5 = Inl (InvalidPageNumber 99 5)
   \<and> modifier_parse_page_range ''99,x'' 5 = Inl (InvalidPageNumber 99 5)
   \<and> is_bounds_error (InvalidPageNumber 99 5)
   \<and> \<not> is_format_error (InvalidPageNumber 99 5)"
  by code_simp

text \<open>
  C8, amended: let an expression be a term list (neither empty nor "all") whose first
  malformed term is \<open>t\<close>. No parser returns a result. The merger's parser fails with the
  format error. The splitter's and the modifier's fail with the format error when no term
  before \<open>t\<close> is out of bounds, and with a bounds error when one is.
\<close>

theorem malformed_term_rejected:
  assumes "range_str \<noteq> []" and "py_lower (py_strip range_str) \<noteq> ''all''"
    and "range_terms range_str = pre @ t # post"
    and "\<forall>u \<in> set pre. well_formed_term u"
    and "\<not> well_formed_term t"
  shows "merger_parse_page_range range_str n = Inl (InvalidPageRangeFormat range_str)
    \<and> (\<exists>err. splitter_parse_page_range range_str n = Inl err)
    \<and> (\<exists>err. modifier_parse_page_range range_str n = Inl err)
    \<and> ((\<forall>u \<in> set pre. \<not> term_out_of_bounds n u) \<longrightarrow>
         splitter_parse_page_range range_str n = Inl (InvalidPageRangeFormat range_str)
         \<and> modifier_parse_page_range range_str n = Inl (InvalidPageRangeFormat range_str))
    \<and> ((\<exists>u \<in> set pre. term_out_of_bounds n u) \<longrightarrow>
         (\<exists>err. splitter_parse_page_range range_str n = Inl err
                \<and> modifier_parse_page_range range_str n = Inl err \<and> is_bounds_error err))"
proof -
  from assms(3) have mem: "t \<in> set (range_terms range_str)" by simp
  with assms(5) have bad: "\<exists>u \<in> set (range_terms range_str). \<not> well_formed_term u" by blast
  from mem assms(5) have bad': "\<exists>u \<in> set (range_terms range_str). \<not> term_ok n u"
    by (auto simp: term_ok_def)
  have m: "merger_parse_page_range range_str n = Inl (InvalidPageRangeFormat range_str)"
    using assms(1,2) bad by (rule merger_parse_format)
  have s: "\<exists>err. splitter_parse_page_range range_str n = Inl err"
    using assms(1,2) bad' by (rule splitter_parse_rejects)
  have f: "splitter_parse_page_range range_str n = Inl (InvalidPageRangeFormat range_str)"
    if "\<forall>u \<in> set pre. \<not> term_out_of_bounds n u"
  proof -
    from that assms(4) have "\<forall>u \<in> set pre. term_ok n u" by (simp add: term_ok_def)
    with assms(1,2,3) show ?thesis using assms(5) by (rule splitter_parse_format)
  qed
  have b: "\<exists>err. splitter_parse_page_range range_str n = Inl err \<and> is_bounds_error err"
    if "\<exists>u \<in> set pre. term_out_of_bounds n u"
  proof -
    from split_list_first_prop [OF that] obtain pre1 u pre2 where
      d: "pre = pre1 @ u # pre2" "term_out_of_bounds n u"
         "\<forall>v \<in> set pre1. \<not> term_out_of_bounds n v"
      by blast
    from d(1,3) assms(4) have ok: "\<forall>v \<in> set pre1. term_ok n v" by (simp add: term_ok_def)
    from d(1) assms(3) have "range_terms range_str = pre1 @ u # (pre2 @ t # post)" by simp
    with assms(1,2) show ?thesis using ok d(2) by (rule splitter_parse_out_of_bounds)
  qed
  from m s f b show ?thesis by (simp add: modifier_parse_eq)
qed

theorem malformed_term_rejected_witness:
  "merger_parse_page_range ''1,x,99'' 5 = Inl (InvalidPageRangeFormat ''1,x,99'')
   \<and> splitter_parse_page_range ''1,x,99'' 5 = Inl (InvalidPageRangeFormat ''1,x,99'')
   \<and> modifier_parse_page_range ''1,x,99'' 5 = Inl (InvalidPageRangeFormat ''1,x,99'')
   \<and> merger_parse_page_range ''99,1-2-3'' 5 = Inl (InvalidPageRangeFormat ''99,1-2-3'')
   \<and> (\<exists>err. splitter_parse_page_range ''99,1-2-3'' 5 = Inl err \<and> is_bounds_error err)"
proof -
  have h: "''1,x,99'' \<noteq> []" "py_lower (py_strip ''1,x,99'') \<noteq> ''all''"
    "range_terms ''1,x,99'' = [''1''] @ ''x'' # [''99'']"
    "\<forall>u \<in> set [''1'']. well_formed_term u" "\<not> well_formed_term ''x''"
    "\<forall>u \<in> set [''1'']. \<not> term_out_of_bounds 5 u"
    by code_simp+
  have k: "''99,1-2-3'' \<noteq> []" "py_lower (py_strip ''99,1-2-3'') \<noteq> ''all''"
    "range_terms ''99,1-2-3'' = [''99''] @ ''1-2-3'' # []"
    "\<forall>u \<in> set [''99'']. well_formed_term u" "\<not> well_formed_term ''1-2-3''"
    "\<exists>u \<in> set [''99'']. term_out_of_bounds 5 u"
    by code_simp+
  from malformed_term_rejected [OF h(1-5), of 5] h(6) malformed_term_rejected [OF k(1-5), of 5] k(6)
  show ?thesis by blast
qed

section \<open>The progress events of a merge\<close>

lemma counters_append: "counters (xs @ ys) = counters xs @ counters ys"
  by (simp add: counters_def)

lemma update_progress_fields:
  "progress_callback (update_progress c t msg m) = progress_callback m"
  "writer (update_progress c t msg m) = writer m"
  by (simp_all add: update_progress_def)

lemma update_progress_counters:
  "progress_callback m \<Longrightarrow>
   counters (notified (update_progress c t msg m)) = counters (notified m) @ [(c, t)]"
  by (simp add: update_progress_def counters_def)

lemma counters_Nil: "counters [] = []"
  by (simp add: counters_def)

lemma upto_shift: "[i + 1..i + int (Suc l)] = (i + 1) # [i + 1 + 1..i + 1 + int l]"
proof -
  have e: "i + int (Suc l) = i + 1 + int l" by simp
  have le: "i + 1 \<le> i + 1 + int l" by simp
  show ?thesis unfolding e using upto_rec1 [OF le] .
qed

lemma validate_files_counters:
  "validate_files env n i fs m = (Inr u, m') \<Longrightarrow> progress_callback m \<Longrightarrow>
   progress_callback m' \<and> writer m' = writer m
   \<and> counters (notified m') = counters (notified m) @ map (\<lambda>k. (k, n)) [i + 1..i + int (length fs)]"
proof (induction fs arbitrary: i m)
  case Nil
  then show ?case by simp
next
  case (Cons f fs)
  let ?m1 = "update_progress (i + 1) n (MsgValidated f) m"
  from Cons.prems(1) have rest: "validate_files env n (i + 1) fs ?m1 = (Inr u, m')"
    by (auto split: sum.splits)
  from Cons.prems(2) have cb: "progress_callback ?m1" by (simp add: update_progress_fields)
  from Cons.IH [OF rest cb] Cons.prems(2) show ?case
    by (simp add: update_progress_fields update_progress_counters upto_shift del: of_nat_Suc)
qed

lemma add_page_fields:
  "progress_callback (add_page pg m) = progress_callback m"
  "notified (add_page pg m) = notified m"
  by (simp_all add: add_page_def)

lemma add_pages_fields:
  "add_pages f k pages tp m = (r, m') \<Longrightarrow>
   progress_callback m' = progress_callback m \<and> notified m' = notified m"
proof (induction pages arbitrary: tp m)
  case Nil
  then show ?case by simp
next
  case (Cons p pages)
  then show ?case
    by (auto simp: add_page_fields split: option.splits)
qed

lemma merge_files_counters:
  "merge_files env pr n i fs tp m = (Inr tp', m') \<Longrightarrow> progress_callback m \<Longrightarrow>
   progress_callback m'
   \<and> counters (notified m') = counters (notified m) @ map (\<lambda>k. (k, n)) [i + 1..i + int (length fs)]"
proof (induction fs arbitrary: i tp m)
  case Nil
  then show ?case by simp
next
  case (Cons f fs)
  from Cons.prems(1) obtain k pages tp1 m1 where
    step: "reader_pages env f = Some k" "pages_to_add pr f k = Inr pages"
      "add_pages f k pages tp m = (Inr tp1, m1)" and
    rest: "merge_files env pr n (i + 1) fs tp1
             (update_progress (i + 1) n (MsgAdded (length pages) f) m1) = (Inr tp', m')"
    by (auto split: option.splits sum.splits prod.splits)
  let ?m2 = "update_progress (i + 1) n (MsgAdded (length pages) f) m1"
  from add_pages_fields [OF step(3)] Cons.prems(2)
  have m1: "progress_callback m1" "notified m1 = notified m" by simp_all
  then have cb: "progress_callback ?m2" by (simp add: update_progress_fields)
  from Cons.IH [OF rest cb] m1 show ?case
    by (simp add: update_progress_counters upto_shift del: of_nat_Suc)
qed

lemma merge_pdfs_counters:
  assumes "merge_pdfs env input_files output_file page_ranges m = (Inr True, m')"
    and "progress_callback m" and "notified m = []"
  shows "counters (notified m') =
           (0, int (length input_files)) # map (\<lambda>k. (k, int (length input_files))) [1..int (length input_files)]
           @ (0, int (length input_files)) # map (\<lambda>k. (k, int (length input_files))) [1..int (length input_files)]
           @ [(int (length input_files), int (length input_files)),
              (int (length input_files), int (length input_files))]"
proof -
  let ?n = "int (length input_files)"
  let ?m1 = "update_progress 0 ?n MsgValidating m"
  from assms(1) obtain u m2 where v: "validate_files env ?n 0 input_files ?m1 = (Inr u, m2)"
    by (auto simp: merge_pdfs_def Let_def split: if_splits sum.splits prod.splits)
  let ?m4 = "update_progress 0 ?n MsgMerging (m2\<lparr>writer := Some []\<rparr>)"
  from assms(1) v obtain tp m5 where mf: "merge_files env page_ranges ?n 0 input_files 0 ?m4 = (Inr tp, m5)"
    by (auto simp: merge_pdfs_def Let_def split: if_splits sum.splits prod.splits)
  from assms(1) v mf have m': "m' = update_progress ?n ?n (MsgMerged ?n tp) (update_progress ?n ?n MsgWriting m5)"
    by (auto simp: merge_pdfs_def Let_def split: if_splits sum.splits prod.splits)
  from assms(2) have cb1: "progress_callback ?m1" by (simp add: update_progress_fields)
  from assms(2,3) have c1: "counters (notified ?m1) = [(0, ?n)]"
    by (simp add: update_progress_counters counters_Nil)
  from validate_files_counters [OF v cb1] c1
  have m2: "progress_callback m2" "counters (notified m2) = (0, ?n) # map (\<lambda>k. (k, ?n)) [1..?n]"
    by simp_all
  from m2(1) have cb4: "progress_callback ?m4" by (simp add: update_progress_fields)
  from m2 have c4: "counters (notified ?m4) = (0, ?n) # map (\<lambda>k. (k, ?n)) [1..?n] @ [(0, ?n)]"
    by (simp add: update_progress_def counters_def)
  from merge_files_counters [OF mf cb4] c4
  have m5: "progress_callback m5"
    "counters (notified m5) = (0, ?n) # map (\<lambda>k. (k, ?n)) [1..?n] @ (0, ?n) # map (\<lambda>k. (k, ?n)) [1..?n]"
    by simp_all
  from m5 m' show ?thesis
    by (simp add: update_progress_counters update_progress_fields)
qed

section \<open>The output plan of a merge\<close>

lemma splitter_parts_all_ok:
  "\<forall>p \<in> set ps. term_ok n (py_strip p) \<Longrightarrow> \<exists>r. splitter_parts n ps pages = Inr r"
proof (induction ps arbitrary: pages)
  case Nil
  then show ?case by simp
next
  case (Cons p ps)
  from Cons.prems obtain a b where ab: "term_value (py_strip p) = Some (a, b)"
    "1 \<le> a" "b \<le> n" "a \<le> b"
    by (auto simp: term_ok_iff)
  from Cons.prems have "\<forall>q \<in> set ps. term_ok n (py_strip q)" by simp
  from Cons.IH [OF this, of "pages @ [a - 1..b - 1]"] ab show ?case
    by (simp add: splitter_part_term_value)
qed

lemma valid_expression_parses:
  assumes "valid_expression r n"
  shows "\<exists>ps. splitter_parse_page_range r n = Inr ps"
proof (cases "r = [] \<or> py_lower (py_strip r) = ''all''")
  case True
  then show ?thesis by (simp add: splitter_parse_page_range_def)
next
  case False
  with assms have "\<forall>p \<in> set (py_split (CHR '','') r). term_ok n (py_strip p)"
    by (auto simp: valid_expression_def range_terms_def list_all_iff)
  from splitter_parts_all_ok [OF this, of "[]"] False show ?thesis
    by (auto simp: splitter_parse_page_range_def)
qed

lemma py_index_in_range: "0 \<le> i \<Longrightarrow> i < int k \<Longrightarrow> py_index k i = Some (nat i)"
  by (simp add: py_index_def)

lemma add_pages_in_range:
  "\<forall>i \<in> set pages. 0 \<le> i \<and> i < int k \<Longrightarrow> writer m = Some w \<Longrightarrow>
   \<exists>m'. add_pages f k pages tp m = (Inr (tp + int (length pages)), m')
        \<and> writer m' = Some (w @ map (\<lambda>i. (f, nat i)) pages)"
proof (induction pages arbitrary: tp m w)
  case Nil
  then show ?case by simp
next
  case (Cons p pages)
  from Cons.prems(1) have p: "py_index k p = Some (nat p)" by (simp add: py_index_in_range)
  from Cons.prems(2) have w: "writer (add_page (f, nat p) m) = Some (w @ [(f, nat p)])"
    by (simp add: add_page_def)
  from Cons.prems(1) have "\<forall>i \<in> set pages. 0 \<le> i \<and> i < int k" by simp
  from Cons.IH [OF this w, of "tp + 1"] p show ?case
    by (auto simp: algebra_simps)
qed

lemma valid_source_pages:
  assumes "valid_source env pr f"
  shows "\<exists>k. reader_pages env f = Some k
             \<and> pages_to_add pr f k = Inr (source_pages env pr f)
             \<and> (\<forall>i \<in> set (source_pages env pr f). 0 \<le> i \<and> i < int k)"
proof -
  from assms obtain k where k: "reader_pages env f = Some k"
    by (auto simp: valid_source_def split: option.splits)
  show ?thesis
  proof (cases "\<exists>d r. pr = Some d \<and> d f = Some r")
    case True
    then obtain d r where dr: "pr = Some d" "d f = Some r" by blast
    with assms k have "valid_expression r (int k)" by (simp add: valid_source_def)
    from valid_expression_parses [OF this] obtain ps where
      ps: "splitter_parse_page_range r (int k) = Inr ps" by blast
    from splitter_parse_merger_parse [OF ps] splitter_parse_in_range [OF ps] ps dr k
    show ?thesis
      by (simp add: pages_to_add_def source_pages_def resolved_def)
  next
    case False
    with k show ?thesis
      by (auto simp: pages_to_add_def source_pages_def split: option.splits)
  qed
qed

lemma merge_files_plan:
  "\<forall>f \<in> set fs. valid_source env pr f \<Longrightarrow> writer m = Some w \<Longrightarrow>
   \<exists>tp' m'. merge_files env pr n i fs tp m = (Inr tp', m')
            \<and> writer m' = Some (w @ merge_plan env pr fs)"
proof (induction fs arbitrary: i tp m w)
  case Nil
  then show ?case by (simp add: merge_plan_def)
next
  case (Cons f fs)
  from Cons.prems(1) have "valid_source env pr f" by simp
  from valid_source_pages [OF this] obtain k where
    k: "reader_pages env f = Some k" "pages_to_add pr f k = Inr (source_pages env pr f)"
       "\<forall>i \<in> set (source_pages env pr f). 0 \<le> i \<and> i < int k"
    by blast
  let ?pages = "source_pages env pr f"
  from add_pages_in_range [OF k(3) Cons.prems(2), of f tp] obtain m1 where
    m1: "add_pages f k ?pages tp m = (Inr (tp + int (length ?pages)), m1)"
        "writer m1 = Some (w @ map (\<lambda>i. (f, nat i)) ?pages)"
    by blast
  let ?m2 = "update_progress (i + 1) n (MsgAdded (length ?pages) f) m1"
  from m1(2) have w2: "writer ?m2 = Some (w @ map (\<lambda>i. (f, nat i)) ?pages)"
    by (simp add: update_progress_fields)
  from Cons.prems(1) have "\<forall>g \<in> set fs. valid_source env pr g" by simp
  from Cons.IH [OF this w2, of "i + 1" "tp + int (length ?pages)"] k m1 show ?case
    by (auto simp: merge_plan_def)
qed

lemma validate_files_valid:
  "\<forall>f \<in> set fs. valid_source env pr f \<Longrightarrow> \<exists>m'. validate_files env n i fs m = (Inr (), m')"
proof (induction fs arbitrary: i m)
  case Nil
  then show ?case by simp
next
  case (Cons f fs)
  from Cons.prems have "validate_pdf env f = Inr True"
    by (auto simp: valid_source_def validate_pdf_def split: option.splits)
  with Cons show ?case by simp
qed

lemma merge_pdfs_plan:
  assumes "2 \<le> length input_files"
    and "\<forall>f \<in> set input_files. valid_source env page_ranges f"
    and "output_writable env output_file"
  shows "\<exists>m'. merge_pdfs env input_files output_file page_ranges m = (Inr True, m')
              \<and> writer m' = Some (merge_plan env page_ranges input_files)"
proof -
  let ?n = "int (length input_files)"
  let ?m1 = "update_progress 0 ?n MsgValidating m"
  from validate_files_valid [OF assms(2)] obtain m2 where
    v: "validate_files env ?n 0 input_files ?m1 = (Inr (), m2)" by blast
  let ?m4 = "update_progress 0 ?n MsgMerging (m2\<lparr>writer := Some []\<rparr>)"
  have w4: "writer ?m4 = Some []" by (simp add: update_progress_fields)
  from merge_files_plan [where n = "?n" and i = 0 and tp = 0, OF assms(2) w4] obtain tp m5 where
    mf: "merge_files env page_ranges ?n 0 input_files 0 ?m4 = (Inr tp, m5)"
        "writer m5 = Some (merge_plan env page_ranges input_files)"
    by auto
  from assms(1) have ne: "input_files \<noteq> []" "\<not> length input_files < 2" by auto
  from ne v mf assms(3) show ?thesis
    by (simp add: merge_pdfs_def Let_def output_writable_def update_progress_fields)
qed

lemma merge_pdfs_too_few:
  assumes "length input_files < 2"
  shows "merge_pdfs env input_files output_file page_ranges m =
           (Inl (if input_files = [] then NoInputFiles else AtLeastTwoRequired), m)"
  using assms by (simp add: merge_pdfs_def)

section \<open>The plans of the splits\<close>

lemma num_files_ceiling:
  assumes "1 \<le> p"
  shows "(int N + p - 1) div p = \<lceil>real N / real_of_int p\<rceil>"
proof -
  let ?q = "(int N + p - 1) div p" and ?r = "(int N + p - 1) mod p"
  have qr: "?q * p + ?r = int N + p - 1" by simp
  from assms have r: "0 \<le> ?r" "?r < p" by simp_all
  from qr r have lo: "int N \<le> ?q * p" by linarith
  have "(?q - 1) * p = ?q * p - p" by (simp add: algebra_simps)
  with qr r have hi: "(?q - 1) * p < int N" by linarith
  from assms have p: "0 < real_of_int p" by simp
  from lo have "real_of_int (int N) \<le> real_of_int (?q * p)" by (simp only: of_int_le_iff)
  then have lo': "real N / real_of_int p \<le> real_of_int ?q"
    using p by (simp add: field_simps)
  from hi have "real_of_int ((?q - 1) * p) < real_of_int (int N)" by (simp only: of_int_less_iff)
  then have hi': "real_of_int ?q - 1 < real N / real_of_int p"
    using p by (simp add: field_simps)
  from hi' lo' show ?thesis by (rule ceiling_unique [symmetric])
qed

lemma sp_update_progress_written:
  "sp_written (sp_update_progress c t msg st) = sp_written st"
  by (simp add: sp_update_progress_def)

lemma fill_writer_in_range:
  "\<forall>i \<in> set pages. 0 \<le> i \<and> i < int k \<Longrightarrow>
   fill_writer f k pages w = Inr (w @ map (\<lambda>i. (f, nat i)) pages)"
  by (induction pages arbitrary: w) (simp_all add: py_index_in_range)

lemma chunk_in_range:
  assumes "0 \<le> f" and "1 \<le> p"
  shows "\<forall>i \<in> set [f * p..min (f * p + p) (int k) - 1]. 0 \<le> i \<and> i < int k"
proof -
  from assms have "0 \<le> f * p" by simp
  then show ?thesis by auto
qed

lemma count_files_plans:
  assumes "1 \<le> p" and "\<forall>f. write_ok env (PartFile out inp f)"
  shows "\<forall>f \<in> set fs. 0 \<le> f \<Longrightarrow>
    \<exists>st'. count_files env inp k p out nf fs outs st = (Inr (outs @ map (part_file out inp) fs), st')
          \<and> sp_written st' = sp_written st @ map (\<lambda>f. (part_file out inp f, chunk_plan inp k p f)) fs"
proof (induction fs arbitrary: outs st)
  case Nil
  then show ?case by simp
next
  case (Cons f fs)
  from Cons.prems have f: "0 \<le> f" by simp
  let ?pages = "[f * p..min (f * p + p) (int k) - 1]"
  have fw: "fill_writer inp k ?pages [] = Inr (chunk_plan inp k p f)"
    using fill_writer_in_range [OF chunk_in_range [OF f assms(1)], where f = inp and w = "[]"]
    by (simp add: chunk_plan_def algebra_simps)
  let ?file = "PartFile out inp (f + 1)"
  let ?st1 = "st\<lparr>sp_written := sp_written st @ [(?file, chunk_plan inp k p f)]\<rparr>"
  from assms(2) have wf: "write_file env ?file (chunk_plan inp k p f) st = Inr ?st1"
    by (simp add: write_file_def)
  let ?st2 = "sp_update_progress (f + 1) nf (MsgCreated ?file) ?st1"
  from Cons.prems have "\<forall>g \<in> set fs. 0 \<le> g" by simp
  from Cons.IH [OF this, where outs = "outs @ [?file]" and st = ?st2] fw wf show ?case
    by (simp add: Let_def sp_update_progress_written part_file_def)
qed

lemma split_by_page_count_plans:
  assumes "split_ready env input_file total_pages output_dir"
    and "1 \<le> pages_per_file"
    and "\<forall>f. write_ok env (PartFile output_dir input_file f)"
    and "sp_written st = []"
  shows "\<exists>st'. split_by_page_count env input_file pages_per_file output_dir st =
              (Inr (map (part_file output_dir input_file)
                      [0..\<lceil>real total_pages / real_of_int pages_per_file\<rceil> - 1]), st')
          \<and> map snd (sp_written st') =
              map (chunk_plan input_file total_pages pages_per_file)
                [0..\<lceil>real total_pages / real_of_int pages_per_file\<rceil> - 1]"
proof -
  let ?nf = "(int total_pages + pages_per_file - 1) div pages_per_file"
  let ?st1 = "sp_update_progress 0 ?nf MsgSplitting st"
  have nn: "\<forall>f \<in> set [0..?nf - 1]. 0 \<le> f" by simp
  from count_files_plans [OF assms(2,3) nn, where k = total_pages and nf = ?nf and outs = "[]"
      and st = ?st1] obtain st2 where
    st2: "count_files env input_file total_pages pages_per_file output_dir ?nf [0..?nf - 1] [] ?st1
            = (Inr (map (part_file output_dir input_file) [0..?nf - 1]), st2)"
      "sp_written st2 = sp_written ?st1 @
         map (\<lambda>f. (part_file output_dir input_file f,
                    chunk_plan input_file total_pages pages_per_file f)) [0..?nf - 1]"
    by auto
  from assms(1,2) st2 assms(4) show ?thesis
    by (simp add: split_by_page_count_def split_ready_def Let_def sp_update_progress_written
        num_files_ceiling [OF assms(2)] comp_def)
qed

lemma resolved_in_range:
  "splitter_parse_page_range r (int k) = Inr ps \<Longrightarrow>
   resolved r k = ps \<and> (\<forall>i \<in> set ps. 0 \<le> i \<and> i < int k)"
  using splitter_parse_in_range [of r "int k" ps] by (simp add: resolved_def)

lemma range_files_plans:
  assumes "\<forall>f. write_ok env f"
  shows "\<forall>r \<in> set rs. \<exists>ps. splitter_parse_page_range r (int k) = Inr ps \<Longrightarrow>
    \<exists>st'. range_files env inp k out n i rs outs st =
            (Inr (outs @ map (pages_file out inp) (filter (\<lambda>r. resolved r k \<noteq> []) rs)), st')
          \<and> sp_written st' = sp_written st @
              map (\<lambda>r. (pages_file out inp r, range_plan inp k r)) (filter (\<lambda>r. resolved r k \<noteq> []) rs)"
proof (induction rs arbitrary: i outs st)
  case Nil
  then show ?case by simp
next
  case (Cons r rs)
  from Cons.prems obtain ps where ps: "splitter_parse_page_range r (int k) = Inr ps" by auto
  from resolved_in_range [OF ps] have res: "resolved r k = ps"
    and rng: "\<forall>i \<in> set ps. 0 \<le> i \<and> i < int k" by simp_all
  from Cons.prems have rest: "\<forall>q \<in> set rs. \<exists>ps. splitter_parse_page_range q (int k) = Inr ps"
    by simp
  show ?case
  proof (cases "ps = []")
    case True
    from Cons.IH [OF rest, where i = "i + 1" and outs = outs and st = st] ps res True
    show ?thesis by simp
  next
    case False
    let ?file = "pages_file out inp r"
    let ?w = "range_plan inp k r"
    have fw: "fill_writer inp k ps [] = Inr ?w"
      using fill_writer_in_range [OF rng, where f = inp and w = "[]"] res
      by (simp add: range_plan_def)
    let ?st1 = "st\<lparr>sp_written := sp_written st @ [(?file, ?w)]\<rparr>"
    from assms have wf: "write_file env ?file ?w st = Inr ?st1"
      by (simp add: write_file_def)
    let ?st2 = "sp_update_progress (i + 1) n (MsgCreatedPages r) ?st1"
    from Cons.IH [OF rest, where i = "i + 1" and outs = "outs @ [?file]" and st = ?st2]
      ps res False fw wf show ?thesis
      by (simp add: Let_def sp_update_progress_written pages_file_def [symmetric])
  qed
qed

lemma split_by_ranges_empty:
  "path_exists env input_file \<Longrightarrow>
   split_by_ranges env input_file [] output_dir st = (Inl NoPageRanges, st)"
  by (simp add: split_by_ranges_def)

lemma split_by_ranges_plans:
  assumes "split_ready env input_file total_pages output_dir"
    and "ranges \<noteq> []"
    and "\<forall>f. write_ok env f"
    and "\<forall>r \<in> set ranges. \<exists>ps. splitter_parse_page_range r (int total_pages) = Inr ps"
    and "sp_written st = []"
  shows "\<exists>st'. split_by_ranges env input_file ranges output_dir st =
              (Inr (map (pages_file output_dir input_file)
                      (filter (\<lambda>r. resolved r total_pages \<noteq> []) ranges)), st')
          \<and> map snd (sp_written st') =
              map (range_plan input_file total_pages)
                (filter (\<lambda>r. resolved r total_pages \<noteq> []) ranges)"
proof -
  let ?n = "int (length ranges)"
  let ?st1 = "sp_update_progress 0 ?n MsgSplittingByRanges st"
  from range_files_plans [OF assms(3,4), where inp = input_file and out = output_dir and n = ?n
      and i = 0 and outs = "[]" and st = ?st1] obtain st2 where
    st2: "range_files env input_file total_pages output_dir ?n 0 ranges [] ?st1 =
            (Inr (map (pages_file output_dir input_file)
                    (filter (\<lambda>r. resolved r total_pages \<noteq> []) ranges)), st2)"
      "sp_written st2 = sp_written ?st1 @
         map (\<lambda>r. (pages_file output_dir input_file r, range_plan input_file total_pages r))
           (filter (\<lambda>r. resolved r total_pages \<noteq> []) ranges)"
    by auto
  from assms(1,2,5) st2 show ?thesis
    by (simp add: split_by_ranges_def split_ready_def Let_def sp_update_progress_written comp_def)
qed

lemma source_pages_ascending: "sorted_wrt (<) (source_pages env pr f)"
proof -
  have r: "sorted_wrt (<) (resolved e k)" for e k
  proof (cases "splitter_parse_page_range e (int k)")
    case (Inl err)
    then show ?thesis by (simp add: resolved_def)
  next
    case (Inr ps)
    with parse_page_range_ascending [of e "int k" ps] show ?thesis by (simp add: resolved_def)
  qed
  have a: "sorted_wrt (<) [0..j]" for j :: int by (simp add: strict_sorted_iff)
  from r a show ?thesis
    by (simp add: source_pages_def Let_def split: option.splits)
qed

section \<open>Claims about merging\<close>

text \<open>
  C2, as stated, fails: a merge of two sources notifies the observer eight times, not
  three, and \<open>current\<close> returns to 0 when the merge phase starts, after the validation
  phase has counted to 2.
\<close>

theorem merge_progress_counterexample:
  "fst (merge_pdfs example_env [''a.pdf'', ''b.pdf''] ''m.pdf'' None new_merger) = Inr True
   \<and> counters (notified (snd (merge_pdfs example_env [''a.pdf'', ''b.pdf''] ''m.pdf'' None new_merger)))
       = [(0, 2), (1, 2), (2, 2), (0, 2), (1, 2), (2, 2), (2, 2), (2, 2)]
   \<and> length (notified (snd (merge_pdfs example_env [''a.pdf'', ''b.pdf''] ''m.pdf'' None new_merger)))
       = 8"
  by code_simp

text \<open>
  C2, amended: a successful merge of \<open>n\<close> sources, with an observer registered, emits
  exactly \<open>2 * n + 4\<close> events, all with \<open>total = n\<close>: one with \<open>current = 0\<close> when validation
  starts and one per source validated with \<open>current = 1, ..., n\<close>; one with \<open>current = 0\<close>
  when merging starts and one per source added with \<open>current = 1, ..., n\<close>, the number of
  sources processed so far; and two completion events with \<open>current = n\<close>. Within each
  phase \<open>current\<close> increases strictly; over the whole sequence it does not.
\<close>

theorem merge_progress_events:
  assumes "fst (merge_pdfs env input_files output_file page_ranges m) = Inr True"
    and "progress_callback m" and "notified m = []"
  shows "counters (notified (snd (merge_pdfs env input_files output_file page_ranges m))) =
           (0, int (length input_files))
             # map (\<lambda>k. (k, int (length input_files))) [1..int (length input_files)]
           @ (0, int (length input_files))
             # map (\<lambda>k. (k, int (length input_files))) [1..int (length input_files)]
           @ [(int (length input_files), int (length input_files)),
              (int (length input_files), int (length input_files))]"
proof -
  from assms(1) have "merge_pdfs env input_files output_file page_ranges m =
      (Inr True, snd (merge_pdfs env input_files output_file page_ranges m))"
    by (metis prod.collapse)
  from this assms(2,3) show ?thesis by (rule merge_pdfs_counters)
qed

theorem merge_progress_events_witness:
  "counters (notified (snd (merge_pdfs example_env [''a.pdf'', ''b.pdf'', ''a.pdf''] ''m.pdf''
       (Some [''b.pdf'' \<mapsto> ''2'']) new_merger)))
   = [(0, 3), (1, 3), (2, 3), (3, 3), (0, 3), (1, 3), (2, 3), (3, 3), (3, 3), (3, 3)]"
proof -
  have h: "fst (merge_pdfs example_env [''a.pdf'', ''b.pdf'', ''a.pdf''] ''m.pdf''
       (Some [''b.pdf'' \<mapsto> ''2'']) new_merger) = Inr True"
    "progress_callback new_merger" "notified new_merger = []"
    by code_simp+
  have u: "[1..int (length [''a.pdf'', ''b.pdf'', ''a.pdf''])] = [1, 2, 3]" by code_simp
  from merge_progress_events [OF h] u show ?thesis by simp
qed

text \<open>
  C4. For at least two valid sources and a writable output, the merge succeeds and its
  writer holds the concatenation, in the order of the sources, of each source's pages:
  the pages its expression selects, in ascending order, or all its pages when it has no
  expression. Three pages of A under "all" and two of B under "1" give the pages 0, 1, 2 of
  A followed by the page 0 of B.
\<close>

theorem merge_plan_in_source_order:
  assumes "2 \<le> length input_files"
    and "\<forall>f \<in> set input_files. valid_source env page_ranges f"
    and "output_writable env output_file"
  shows "fst (merge_pdfs env input_files output_file page_ranges m) = Inr True
    \<and> writer (snd (merge_pdfs env input_files output_file page_ranges m)) =
        Some (concat (map (\<lambda>f. map (\<lambda>i. (f, nat i)) (source_pages env page_ranges f)) input_files))
    \<and> (\<forall>f \<in> set input_files. sorted_wrt (<) (source_pages env page_ranges f))"
  using merge_pdfs_plan [OF assms, of m] source_pages_ascending
  by (auto simp: merge_plan_def)

theorem merge_plan_in_source_order_witness:
  "fst (merge_pdfs example_env [''a.pdf'', ''b.pdf''] ''m.pdf''
          (Some [''a.pdf'' \<mapsto> ''all'', ''b.pdf'' \<mapsto> ''1'']) new_merger) = Inr True
   \<and> writer (snd (merge_pdfs example_env [''a.pdf'', ''b.pdf''] ''m.pdf''
          (Some [''a.pdf'' \<mapsto> ''all'', ''b.pdf'' \<mapsto> ''1'']) new_merger))
       = Some [(''a.pdf'', 0), (''a.pdf'', 1), (''a.pdf'', 2), (''b.pdf'', 0)]
   \<and> source_pages example_env None ''b.pdf'' = [0, 1]"
proof -
  let ?pr = "Some [''a.pdf'' \<mapsto> ''all'', ''b.pdf'' \<mapsto> ''1'']"
  have h: "2 \<le> length [''a.pdf'', ''b.pdf'']"
    "\<forall>f \<in> set [''a.pdf'', ''b.pdf'']. valid_source example_env ?pr f"
    "output_writable example_env ''m.pdf''"
    by code_simp+
  have u: "concat (map (\<lambda>f. map (\<lambda>i. (f, nat i)) (source_pages example_env ?pr f))
             [''a.pdf'', ''b.pdf''])
           = [(''a.pdf'', 0), (''a.pdf'', 1), (''a.pdf'', 2), (''b.pdf'', 0)]"
    "source_pages example_env None ''b.pdf'' = [0, 1]"
    by code_simp+
  from merge_plan_in_source_order [OF h, of new_merger] u show ?thesis by simp
qed

text \<open>
  C9. With fewer than two sources the merge fails at once, with "No input files provided"
  for none and "At least 2 PDF files are required for merging" for one: the merger is
  left as it was, so no event has been emitted and no page planned.
\<close>

theorem merge_requires_two_sources:
  assumes "length input_files < 2"
  shows "merge_pdfs env input_files output_file page_ranges m =
           (Inl (if input_files = [] then NoInputFiles else AtLeastTwoRequired), m)
         \<and> insufficient_sources (if input_files = [] then NoInputFiles else AtLeastTwoRequired)"
  using assms by (simp add: merge_pdfs_def)

theorem merge_requires_two_sources_witness:
  "merge_pdfs example_env [] ''m.pdf'' None new_merger = (Inl NoInputFiles, new_merger)
   \<and> merge_pdfs example_env [''a.pdf''] ''m.pdf'' None new_merger
       = (Inl AtLeastTwoRequired, new_merger)
   \<and> notified new_merger = [] \<and> writer new_merger = None"
proof -
  have h: "length ([]::string list) < 2" "length [''a.pdf''] < 2" by simp_all
  have n: "notified new_merger = []" "writer new_merger = None" by (simp_all add: new_merger_def)
  from merge_requires_two_sources [OF h(1), of example_env "''m.pdf''" None new_merger]
    merge_requires_two_sources [OF h(2), of example_env "''m.pdf''" None new_merger] n
  show ?thesis by simp
qed

section \<open>Claims about splitting\<close>

text \<open>
  C5. For a source of \<open>N\<close> pages and \<open>pagesPerFile \<ge> 1\<close>, the split by count writes exactly
  \<open>ceil(N / pagesPerFile)\<close> files, and file \<open>f\<close> (from 0) holds the consecutive pages from
  \<open>f * pagesPerFile\<close> up to \<open>min((f + 1) * pagesPerFile, N)\<close> exclusive, in ascending order.
\<close>

theorem split_by_count_plans:
  assumes "split_ready env input_file total_pages output_dir"
    and "1 \<le> pages_per_file"
    and "\<forall>f. write_ok env (PartFile output_dir input_file f)"
    and "sp_written st = []"
  shows "fst (split_by_page_count env input_file pages_per_file output_dir st) =
           Inr (map (part_file output_dir input_file)
                  [0..\<lceil>real total_pages / real_of_int pages_per_file\<rceil> - 1])
    \<and> map snd (sp_written (snd (split_by_page_count env input_file pages_per_file output_dir st))) =
           map (chunk_plan input_file total_pages pages_per_file)
             [0..\<lceil>real total_pages / real_of_int pages_per_file\<rceil> - 1]
    \<and> length (sp_written (snd (split_by_page_count env input_file pages_per_file output_dir st))) =
           nat \<lceil>real total_pages / real_of_int pages_per_file\<rceil>"
proof -
  from split_by_page_count_plans [OF assms] obtain st' where
    r: "split_by_page_count env input_file pages_per_file output_dir st =
          (Inr (map (part_file output_dir input_file)
                  [0..\<lceil>real total_pages / real_of_int pages_per_file\<rceil> - 1]), st')"
       "map snd (sp_written st') =
          map (chunk_plan input_file total_pages pages_per_file)
            [0..\<lceil>real total_pages / real_of_int pages_per_file\<rceil> - 1]"
    by blast
  from r(2) have "length (map snd (sp_written st')) =
      length (map (chunk_plan input_file total_pages pages_per_file)
            [0..\<lceil>real total_pages / real_of_int pages_per_file\<rceil> - 1])"
    by (rule arg_cong)
  then have "length (sp_written st') = nat \<lceil>real total_pages / real_of_int pages_per_file\<rceil>"
    by simp
  with r show ?thesis by simp
qed

theorem split_by_count_plans_witness:
  "fst (split_by_page_count example_env ''seven.pdf'' 3 ''out'' new_splitter) =
     Inr [PartFile ''out'' ''seven.pdf'' 1, PartFile ''out'' ''seven.pdf'' 2,
          PartFile ''out'' ''seven.pdf'' 3]
   \<and> map snd (sp_written (snd (split_by_page_count example_env ''seven.pdf'' 3 ''out'' new_splitter))) =
     [[(''seven.pdf'', 0), (''seven.pdf'', 1), (''seven.pdf'', 2)],
      [(''seven.pdf'', 3), (''seven.pdf'', 4), (''seven.pdf'', 5)],
      [(''seven.pdf'', 6)]]
   \<and> length (sp_written (snd (split_by_page_count example_env ''seven.pdf'' 3 ''out'' new_splitter))) = 3"
proof -
  have h: "split_ready example_env ''seven.pdf'' 7 ''out''" "(1::int) \<le> 3"
    "sp_written new_splitter = []"
    by code_simp+
  have w: "\<forall>f. write_ok example_env (PartFile ''out'' ''seven.pdf'' f)"
    by (simp add: example_env_def)
  have c: "\<lceil>real 7 / real_of_int 3\<rceil> = 3" by simp
  have u: "map (part_file ''out'' ''seven.pdf'') [0..3 - 1] =
      [PartFile ''out'' ''seven.pdf'' 1, PartFile ''out'' ''seven.pdf'' 2,
       PartFile ''out'' ''seven.pdf'' 3]"
    "map (chunk_plan ''seven.pdf'' 7 3) [0..3 - 1] =
      [[(''seven.pdf'', 0), (''seven.pdf'', 1), (''seven.pdf'', 2)],
       [(''seven.pdf'', 3), (''seven.pdf'', 4), (''seven.pdf'', 5)],
       [(''seven.pdf'', 6)]]"
    by code_simp+
  from split_by_count_plans [OF h(1,2) w h(3)] show ?thesis
    unfolding c u by simp
qed

text \<open>
  C6. On a source that exists, the split by ranges fails with "No page ranges provided"
  for an empty list of expressions. Otherwise, when every expression is valid, it takes
  the expressions in order and writes exactly one file for each expression whose pages are
  not empty, with those pages; an expression with no pages is passed over and the
  operation still succeeds.
\<close>

theorem split_by_ranges_skips_empty:
  assumes "path_exists env input_file"
  shows "(ranges = [] \<longrightarrow>
            split_by_ranges env input_file ranges output_dir st = (Inl NoPageRanges, st))
    \<and> (ranges \<noteq> [] \<and> split_ready env input_file total_pages output_dir
        \<and> (\<forall>f. write_ok env f)
        \<and> (\<forall>r \<in> set ranges. valid_expression r (int total_pages))
        \<and> sp_written st = [] \<longrightarrow>
          fst (split_by_ranges env input_file ranges output_dir st) =
            Inr (map (pages_file output_dir input_file)
                   (filter (\<lambda>r. resolved r total_pages \<noteq> []) ranges))
          \<and> map snd (sp_written (snd (split_by_ranges env input_file ranges output_dir st))) =
              map (range_plan input_file total_pages)
                (filter (\<lambda>r. resolved r total_pages \<noteq> []) ranges))"
proof (intro conjI impI)
  assume "ranges = []"
  with assms show "split_by_ranges env input_file ranges output_dir st = (Inl NoPageRanges, st)"
    by (simp add: split_by_ranges_empty)
next
  assume a: "ranges \<noteq> [] \<and> split_ready env input_file total_pages output_dir
        \<and> (\<forall>f. write_ok env f)
        \<and> (\<forall>r \<in> set ranges. valid_expression r (int total_pages))
        \<and> sp_written st = []"
  then have p: "\<forall>r \<in> set ranges. \<exists>ps. splitter_parse_page_range r (int total_pages) = Inr ps"
    by (auto dest: valid_expression_parses)
  from a have "split_ready env input_file total_pages output_dir" "ranges \<noteq> []"
    "\<forall>f. write_ok env f" "sp_written st = []"
    by simp_all
  from split_by_ranges_plans [OF this(1,2,3) p this(4)] obtain st' where
    r: "split_by_ranges env input_file ranges output_dir st =
          (Inr (map (pages_file output_dir input_file)
                  (filter (\<lambda>r. resolved r total_pages \<noteq> []) ranges)), st')"
       "map snd (sp_written st') =
          map (range_plan input_file total_pages)
            (filter (\<lambda>r. resolved r total_pages \<noteq> []) ranges)"
    by blast
  from r show "fst (split_by_ranges env input_file ranges output_dir st) =
            Inr (map (pages_file output_dir input_file)
                   (filter (\<lambda>r. resolved r total_pages \<noteq> []) ranges))"
    by simp
  from r show "map snd (sp_written (snd (split_by_ranges env input_file ranges output_dir st))) =
              map (range_plan input_file total_pages)
                (filter (\<lambda>r. resolved r total_pages \<noteq> []) ranges)"
    by simp
qed

theorem split_by_ranges_skips_empty_witness:
  "split_by_ranges example_env ''doc.pdf'' [] ''out'' new_splitter = (Inl NoPageRanges, new_splitter)
   \<and> fst (split_by_ranges example_env ''blank.pdf'' [''all'', ''''] ''out'' new_splitter) = Inr []
   \<and> map snd (sp_written (snd (split_by_ranges example_env ''blank.pdf'' [''all'', ''''] ''out''
         new_splitter))) = []
   \<and> fst (split_by_ranges example_env ''doc.pdf'' [''1-2'', ''4,9''] ''out'' new_splitter) =
       Inr [PagesFile ''out'' ''doc.pdf'' ''1-2'', PagesFile ''out'' ''doc.pdf'' ''4_9'']
   \<and> map snd (sp_written (snd (split_by_ranges example_env ''doc.pdf'' [''1-2'', ''4,9''] ''out''
         new_splitter))) =
       [[(''doc.pdf'', 0), (''doc.pdf'', 1)], [(''doc.pdf'', 3), (''doc.pdf'', 8)]]"
proof -
  have e: "path_exists example_env ''doc.pdf''" "path_exists example_env ''blank.pdf''"
    by code_simp+
  have w: "\<forall>f. write_ok example_env f" by (simp add: example_env_def)
  have b: "[''all'', ''''] \<noteq> []" "split_ready example_env ''blank.pdf'' 0 ''out''"
    "\<forall>r \<in> set [''all'', '''']. valid_expression r (int 0)" "sp_written new_splitter = []"
    by code_simp+
  have d: "[''1-2'', ''4,9''] \<noteq> []" "split_ready example_env ''doc.pdf'' 10 ''out''"
    "\<forall>r \<in> set [''1-2'', ''4,9'']. valid_expression r (int 10)"
    by code_simp+
  have u: "filter (\<lambda>r. resolved r 0 \<noteq> []) [''all'', ''''] = []"
    "map (pages_file ''out'' ''doc.pdf'') (filter (\<lambda>r. resolved r 10 \<noteq> []) [''1-2'', ''4,9'']) =
       [PagesFile ''out'' ''doc.pdf'' ''1-2'', PagesFile ''out'' ''doc.pdf'' ''4_9'']"
    "map (range_plan ''doc.pdf'' 10) (filter (\<lambda>r. resolved r 10 \<noteq> []) [''1-2'', ''4,9'']) =
       [[(''doc.pdf'', 0), (''doc.pdf'', 1)], [(''doc.pdf'', 3), (''doc.pdf'', 8)]]"
    by code_simp+
  from split_by_ranges_skips_empty [OF e(1), of "[]" "''out''" new_splitter 10]
  have 1: "split_by_ranges example_env ''doc.pdf'' [] ''out'' new_splitter =
      (Inl NoPageRanges, new_splitter)"
    by simp
  from split_by_ranges_skips_empty [OF e(2), of "[''all'', '''']" "''out''" new_splitter 0] b w u(1)
  have 2: "fst (split_by_ranges example_env ''blank.pdf'' [''all'', ''''] ''out'' new_splitter) = Inr []
     \<and> map snd (sp_written (snd (split_by_ranges example_env ''blank.pdf'' [''all'', ''''] ''out''
         new_splitter))) = []"
    by simp
  from split_by_ranges_skips_empty [OF e(1), of "[''1-2'', ''4,9'']" "''out''" new_splitter 10]
    d w b(4) u(2,3)
  have 3: "fst (split_by_ranges example_env ''doc.pdf'' [''1-2'', ''4,9''] ''out'' new_splitter) =
       Inr [PagesFile ''out'' ''doc.pdf'' ''1-2'', PagesFile ''out'' ''doc.pdf'' ''4_9'']
   \<and> map snd (sp_written (snd (split_by_ranges example_env ''doc.pdf'' [''1-2'', ''4,9''] ''out''
         new_splitter))) =
       [[(''doc.pdf'', 0), (''doc.pdf'', 1)], [(''doc.pdf'', 3), (''doc.pdf'', 8)]]"
    by simp
  from 1 2 3 show ?thesis by blast
qed

text \<open>
  C10. The split by ranges resolves each expression against the whole document and asks
  for no disjointness: for "1-5" and "3-7" on 10 pages, the pages 2, 3 and 4 are in both
  output files.
\<close>

theorem split_by_ranges_overlap:
  "fst (split_by_ranges example_env ''doc.pdf'' [''1-5'', ''3-7''] ''out'' new_splitter) =
     Inr [PagesFile ''out'' ''doc.pdf'' ''1-5'', PagesFile ''out'' ''doc.pdf'' ''3-7'']
   \<and> map snd (sp_written (snd (split_by_ranges example_env ''doc.pdf'' [''1-5'', ''3-7''] ''out''
         new_splitter))) =
     [[(''doc.pdf'', 0), (''doc.pdf'', 1), (''doc.pdf'', 2), (''doc.pdf'', 3), (''doc.pdf'', 4)],
      [(''doc.pdf'', 2), (''doc.pdf'', 3), (''doc.pdf'', 4), (''doc.pdf'', 5), (''doc.pdf'', 6)]]"
  by code_simp

end
